theory Spec2Isabelle
  imports Complex_Main "HOL-Library.Char_ord" "HOL-Library.List_Lexorder"
    "HOL-Library.Sublist" "HOL-Library.AList"
begin

section \<open>Errors\<close>

text \<open>
  Every exception the modelled Python can raise is a value.  Results have the type
  \<open>error + 'a\<close>, \<open>Inl\<close> carrying the exception.
\<close>

datatype error =
    IndexError
  | KeyError string
  | ValueError
  | RuntimeError
  | AttributeError
  | LoadError "string list" "string list"

definition ebind :: "error + 'a \<Rightarrow> ('a \<Rightarrow> error + 'b) \<Rightarrow> error + 'b" where
  "ebind m f = (case m of Inl e \<Rightarrow> Inl e | Inr v \<Rightarrow> f v)"

definition raises :: "error + 'a \<Rightarrow> bool" where
  "raises m = (case m of Inl e \<Rightarrow> True | Inr v \<Rightarrow> False)"

section \<open>Tensors\<close>

text \<open>
  A tensor is a shape and its entries in row-major (contiguous) order, which is the
  layout every tensor of \<open>resnet.py\<close> has when \<open>view\<close> is called on it.  The entries
  are taken from a field: the floating-point numbers of the program are idealised
  to exact arithmetic, so the statements below are about which entries are
  combined, not about rounding.
\<close>

record 'a tensor =
  shape :: "nat list"
  data :: "'a list"

definition numel :: "nat list \<Rightarrow> nat" where
  "numel sh = prod_list sh"

definition wf_tensor :: "'a tensor \<Rightarrow> bool" where
  "wf_tensor t = (length (data t) = numel (shape t))"

fun ravel :: "nat list \<Rightarrow> nat list \<Rightarrow> nat" where
  "ravel (d # ds) (i # js) = i * numel ds + ravel ds js"
| "ravel _ _ = 0"

fun unravel :: "nat list \<Rightarrow> nat \<Rightarrow> nat list" where
  "unravel [] n = []"
| "unravel (d # ds) n = (n div numel ds) # unravel ds (n mod numel ds)"

fun valid_index :: "nat list \<Rightarrow> nat list \<Rightarrow> bool" where
  "valid_index [] [] = True"
| "valid_index (d # ds) (i # js) = (i < d \<and> valid_index ds js)"
| "valid_index _ _ = False"

definition get :: "'a tensor \<Rightarrow> nat list \<Rightarrow> 'a" where
  "get t idx = data t ! ravel (shape t) idx"

definition tabulate :: "nat list \<Rightarrow> (nat list \<Rightarrow> 'a) \<Rightarrow> 'a tensor" where
  "tabulate sh f = \<lparr>shape = sh, data = map (\<lambda>n. f (unravel sh n)) [0..<numel sh]\<rparr>"

subsection \<open>\<open>view\<close> and \<open>reshape\<close>\<close>

text \<open>
  \<open>t.view(*dims)\<close> keeps the row-major entries and replaces the shape.  At most one
  dimension may be \<open>-1\<close>; it is inferred from the number of entries, and the call
  raises when the entry counts do not agree.  On a contiguous tensor \<open>reshape\<close> is
  \<open>view\<close>.
\<close>

definition infer_shape :: "nat \<Rightarrow> int list \<Rightarrow> error + nat list" where
  "infer_shape n dims =
     (if \<exists>d \<in> set dims. d < -1 then Inl RuntimeError
      else if 1 < length (filter (\<lambda>d. d = -1) dims) then Inl RuntimeError
      else if -1 \<in> set dims then
        (let p = numel (map nat (filter (\<lambda>d. d \<noteq> -1) dims)) in
         if p = 0 \<or> n mod p \<noteq> 0 then Inl RuntimeError
         else Inr (map (\<lambda>d. if d = -1 then n div p else nat d) dims))
      else if numel (map nat dims) = n then Inr (map nat dims)
      else Inl RuntimeError)"

definition view :: "'a tensor \<Rightarrow> int list \<Rightarrow> error + 'a tensor" where
  "view t dims = ebind (infer_shape (numel (shape t)) dims) (\<lambda>sh. Inr (t\<lparr>shape := sh\<rparr>))"

subsection \<open>Indexing\<close>

text \<open>
  \<open>t[labels]\<close> with a one-dimensional integer tensor selects slices along the first
  dimension; a negative index counts from the end and an index out of range raises.
  \<open>t[None]\<close> adds a leading dimension of size one.
\<close>

definition norm_index :: "nat \<Rightarrow> int \<Rightarrow> error + nat" where
  "norm_index n i =
     (if 0 \<le> i \<and> i < int n then Inr (nat i)
      else if - int n \<le> i \<and> i < 0 then Inr (nat (int n + i))
      else Inl IndexError)"

fun norm_indices :: "nat \<Rightarrow> int list \<Rightarrow> error + nat list" where
  "norm_indices n [] = Inr []"
| "norm_indices n (i # js) =
     ebind (norm_index n i) (\<lambda>k. ebind (norm_indices n js) (\<lambda>ks. Inr (k # ks)))"

definition index_rows :: "'a tensor \<Rightarrow> int list \<Rightarrow> error + 'a tensor" where
  "index_rows t ls =
     (case shape t of
        [] \<Rightarrow> Inl IndexError
      | n # rest \<Rightarrow>
          ebind (norm_indices n ls) (\<lambda>ks.
            Inr (tabulate (length ks # rest) (\<lambda>idx. get t ((ks ! hd idx) # tl idx)))))"

definition index_none :: "'a tensor \<Rightarrow> 'a tensor" where
  "index_none t = t\<lparr>shape := 1 # shape t\<rparr>"

subsection \<open>Broadcasting\<close>

text \<open>
  Shapes are aligned at the right; a missing or size-one dimension is stretched.
\<close>

fun broadcast_dims :: "nat list \<Rightarrow> nat list \<Rightarrow> error + nat list" where
  "broadcast_dims [] [] = Inr []"
| "broadcast_dims (a # as) (b # bs) =
     (if a = b \<or> b = 1 then ebind (broadcast_dims as bs) (\<lambda>r. Inr (a # r))
      else if a = 1 then ebind (broadcast_dims as bs) (\<lambda>r. Inr (b # r))
      else Inl RuntimeError)"
| "broadcast_dims _ _ = Inl RuntimeError"

definition pad_shape :: "nat \<Rightarrow> nat list \<Rightarrow> nat list" where
  "pad_shape r sh = replicate (r - length sh) 1 @ sh"

definition broadcast_shape :: "nat list \<Rightarrow> nat list \<Rightarrow> error + nat list" where
  "broadcast_shape sa sb =
     (let r = max (length sa) (length sb) in broadcast_dims (pad_shape r sa) (pad_shape r sb))"

definition bget :: "'a tensor \<Rightarrow> nat list \<Rightarrow> 'a" where
  "bget t idx =
     get t (map2 (\<lambda>d i. if d = 1 then 0 else i) (shape t)
              (drop (length idx - length (shape t)) idx))"

definition bmul :: "('a::times) tensor \<Rightarrow> 'a tensor \<Rightarrow> error + 'a tensor" where
  "bmul a b = ebind (broadcast_shape (shape a) (shape b)) (\<lambda>sh.
     Inr (tabulate sh (\<lambda>idx. bget a idx * bget b idx)))"

definition bmax :: "('a::linorder) tensor \<Rightarrow> 'a tensor \<Rightarrow> error + 'a tensor" where
  "bmax a b = ebind (broadcast_shape (shape a) (shape b)) (\<lambda>sh.
     Inr (tabulate sh (\<lambda>idx. max (bget a idx) (bget b idx))))"

subsection \<open>Reductions and products\<close>

text \<open>
  \<open>t.mean(k)\<close> averages over dimension \<open>k\<close> and removes it.  Over an empty dimension
  torch yields NaN where the division below yields 0; \<open>forward\<close> never gets there,
  because the pooling before it rejects an empty non-batch dimension.
\<close>

definition mean_dim :: "nat \<Rightarrow> ('a::field) tensor \<Rightarrow> error + 'a tensor" where
  "mean_dim k t =
     (if length (shape t) \<le> k then Inl IndexError
      else let d = shape t ! k in
        Inr (tabulate (take k (shape t) @ drop (Suc k) (shape t))
               (\<lambda>idx. sum_list (map (\<lambda>j. get t (take k idx @ j # drop k idx)) [0..<d])
                         / of_nat d)))"

definition avgpool :: "('a::field) tensor \<Rightarrow> error + 'a tensor" where
  "avgpool t =
     (case shape t of
        [b, c, h, w] \<Rightarrow>
          if c = 0 \<or> h = 0 \<or> w = 0 then Inl RuntimeError
          else Inr (tabulate [b, c, 1, 1]
                 (\<lambda>idx. sum_list (map (\<lambda>n. get t [idx ! 0, idx ! 1, n div w, n mod w]) [0..<h * w])
                           / of_nat (h * w)))
      | _ \<Rightarrow> Inl RuntimeError)"

definition linear :: "('a::field) tensor \<Rightarrow> 'a tensor \<Rightarrow> 'a tensor \<Rightarrow> error + 'a tensor" where
  "linear x w bias =
     (case (shape x, shape w, shape bias) of
        ([b, c], [n, c'], [n']) \<Rightarrow>
          if c \<noteq> c' \<or> n \<noteq> n' then Inl RuntimeError
          else Inr (tabulate [b, n]
                 (\<lambda>idx. sum_list (map (\<lambda>k. get x [idx ! 0, k] * get w [idx ! 1, k]) [0..<c])
                           + get bias [idx ! 1]))
      | _ \<Rightarrow> Inl RuntimeError)"

definition matmul :: "('a::field) tensor \<Rightarrow> 'a tensor \<Rightarrow> error + 'a tensor" where
  "matmul a w =
     (case (shape a, shape w) of
        ([b, m, c], [c', k]) \<Rightarrow>
          if c \<noteq> c' then Inl RuntimeError
          else Inr (tabulate [b, m, k]
                 (\<lambda>idx. sum_list (map (\<lambda>t. get a [idx ! 0, idx ! 1, t] * get w [t, idx ! 2]) [0..<c])))
      | _ \<Rightarrow> Inl RuntimeError)"

subsection \<open>Repetition\<close>

definition repeat_interleave0 :: "nat \<Rightarrow> 'a tensor \<Rightarrow> error + 'a tensor" where
  "repeat_interleave0 r t =
     (case shape t of
        [] \<Rightarrow> Inl IndexError
      | n # rest \<Rightarrow> Inr (tabulate (n * r # rest) (\<lambda>idx. get t ((hd idx div r) # tl idx))))"

definition eye :: "nat \<Rightarrow> ('a::zero_neq_one) tensor" where
  "eye c = tabulate [c, c] (\<lambda>idx. if idx ! 0 = idx ! 1 then 1 else 0)"

definition repeat :: "nat list \<Rightarrow> 'a tensor \<Rightarrow> error + 'a tensor" where
  "repeat reps t =
     (if length reps < length (shape t) then Inl RuntimeError
      else let sh = pad_shape (length reps) (shape t) in
        Inr (tabulate (map2 (*) reps sh)
               (\<lambda>idx. get (t\<lparr>shape := sh\<rparr>) (map2 (\<lambda>i d. i mod d) idx sh))))"

section \<open>\<open>ResNetCam.forward\<close>\<close>

text \<open>
  The convolutional backbone (\<open>conv1\<close> to \<open>layer4\<close>) belongs to the numerical library;
  the model starts at its output \<open>x\<close>, the last feature map.  \<open>labels\<close> is \<open>None\<close>, a
  one-dimensional integer tensor of class indices, or a floating-point tensor (the
  multi-hot matrix of the multi-label case).  \<open>detach\<close>, \<open>clone\<close>, \<open>cuda\<close> and \<open>to\<close>
  do not change entries.
\<close>

datatype 'a labels = LNone | LIndex "int list" | LMask "'a tensor"

datatype ('a, 'd) fwd_result = Cams "'a tensor" | Dict 'd

definition index_labels :: "'a tensor \<Rightarrow> 'a labels \<Rightarrow> error + 'a tensor" where
  "index_labels w labels =
     (case labels of
        LNone \<Rightarrow> Inr (index_none w)
      | LIndex ls \<Rightarrow> index_rows w ls
      | LMask m \<Rightarrow> Inl IndexError)"

definition fc_logits :: "('a::field) tensor \<Rightarrow> 'a tensor \<Rightarrow> 'a tensor \<Rightarrow> error + 'a tensor" where
  "fc_logits fc_weight fc_bias x =
     ebind (avgpool x) (\<lambda>pre_logit.
     ebind (view pre_logit [int (hd (shape pre_logit)), -1]) (\<lambda>pre_logit.
     linear pre_logit fc_weight fc_bias))"

definition ResNetCam_forward ::
  "string \<Rightarrow> ('a::field) tensor \<Rightarrow> 'a tensor \<Rightarrow> 'a tensor \<Rightarrow> 'a labels \<Rightarrow> bool \<Rightarrow> error + ('a, 'a tensor) fwd_result"
where
  "ResNetCam_forward classif_type fc_weight fc_bias x labels return_cam =
     ebind (fc_logits fc_weight fc_bias x) (\<lambda>logits.
     if return_cam then
       if classif_type = ''multi_class'' then
         (let feature_map = x in
          ebind (index_labels fc_weight labels) (\<lambda>cam_weights.
          ebind (view cam_weights (map int (take 2 (shape feature_map)) @ [1, 1])) (\<lambda>v.
          ebind (bmul v feature_map) (\<lambda>p.
          ebind (mean_dim 1 p) (\<lambda>cams. Inr (Cams cams))))))
       else
         (case labels of
            LNone \<Rightarrow> Inl AttributeError
          | LIndex ls \<Rightarrow> Inl ValueError
          | LMask lab \<Rightarrow>
             (case shape lab of
                [b, c] \<Rightarrow>
                  (let feature_map = x in
                   ebind (repeat_interleave0 c lab) (\<lambda>label_masks.
                   ebind (repeat [b, 1] (eye c)) (\<lambda>I.
                   ebind (bmul label_masks I) (\<lambda>label_masks.
                   ebind (view label_masks [int b, -1, int c]) (\<lambda>lm.
                   ebind (matmul lm fc_weight) (\<lambda>cam_weights.
                   ebind (view cam_weights [int c, int b, -1, 1, 1]) (\<lambda>v.
                   ebind (bmul v feature_map) (\<lambda>p.
                   ebind (mean_dim 2 p) (\<lambda>m.
                   ebind (view m ([int b, int c] @ map int (drop 2 (shape feature_map)))) (\<lambda>cams.
                   Inr (Cams cams)))))))))))
              | _ \<Rightarrow> Inl ValueError))
     else Inr (Dict logits))"

section \<open>\<open>ResNetAdl.forward\<close>\<close>

definition ResNetAdl_forward ::
  "('a::field) tensor \<Rightarrow> 'a tensor \<Rightarrow> 'a tensor \<Rightarrow> 'a labels \<Rightarrow> bool
     \<Rightarrow> error + ('a, 'a tensor) fwd_result"
where
  "ResNetAdl_forward fc_weight fc_bias x labels return_cam =
     ebind (fc_logits fc_weight fc_bias x) (\<lambda>logits.
     if return_cam then
       (let feature_map = x in
        ebind (index_labels fc_weight labels) (\<lambda>cam_weights.
        ebind (view cam_weights (map int (take 2 (shape feature_map)) @ [1, 1])) (\<lambda>v.
        ebind (bmul v feature_map) (\<lambda>p.
        ebind (mean_dim 1 p) (\<lambda>cams. Inr (Cams cams))))))
     else Inr (Dict logits))"

section \<open>\<open>ResNetAcol.forward\<close> and \<open>ResNetSpg.forward\<close>\<close>

text \<open>
  \<open>t[range(batch_size), labels]\<close> pairs the two index sequences (an index sequence of
  length one is stretched) and selects along the first two dimensions.  With
  \<open>labels = None\<close> the second index adds a dimension instead.
\<close>

definition pick :: "nat list \<Rightarrow> nat \<Rightarrow> nat" where
  "pick ks i = (if length ks = 1 then ks ! 0 else ks ! i)"

definition index_batch_labels :: "'a tensor \<Rightarrow> nat \<Rightarrow> 'a labels \<Rightarrow> error + 'a tensor" where
  "index_batch_labels t batch_size labels =
     (case shape t of
        n0 # n1 # rest \<Rightarrow>
          (case labels of
             LIndex ls \<Rightarrow>
               ebind (norm_indices n0 (map int [0..<batch_size])) (\<lambda>i0.
               ebind (norm_indices n1 ls) (\<lambda>i1.
               (case broadcast_dims [length i0] [length i1] of
                  Inl e \<Rightarrow> Inl IndexError
                | Inr sh \<Rightarrow>
                    Inr (tabulate (sh @ rest)
                      (\<lambda>idx. get t (pick i0 (hd idx) # pick i1 (hd idx) # tl idx))))))
           | LNone \<Rightarrow>
               ebind (norm_indices n0 (map int [0..<batch_size])) (\<lambda>i0.
                 Inr (tabulate (length i0 # 1 # n1 # rest)
                   (\<lambda>idx. get t ((i0 ! hd idx) # tl (tl idx)))))
           | LMask m \<Rightarrow> Inl IndexError)
      | _ \<Rightarrow> Inl IndexError)"

text \<open>
  \<open>AcolBase._acol_logits\<close> and \<open>normalize_tensor\<close> are imported from modules that are
  not part of \<open>resnet.py\<close>; \<open>forward\<close> takes them as parameters.
\<close>

record 'a acol_dict =
  acol_logits :: "'a tensor"
  feat_map_a :: "'a tensor"
  feat_map_b :: "'a tensor"

definition ResNetAcol_forward ::
  "('a tensor \<Rightarrow> 'a labels \<Rightarrow> 'p \<Rightarrow> error + 'a acol_dict) \<Rightarrow> ('a tensor \<Rightarrow> error + 'a tensor)
     \<Rightarrow> 'p \<Rightarrow> nat \<Rightarrow> ('a::linorder) tensor \<Rightarrow> 'a labels \<Rightarrow> bool
     \<Rightarrow> error + ('a, 'a acol_dict) fwd_result"
where
  "ResNetAcol_forward acol_logits_fn normalize_tensor drop_threshold batch_size feature labels
       return_cam =
     ebind (acol_logits_fn feature labels drop_threshold) (\<lambda>logits_dict.
     if return_cam then
       ebind (normalize_tensor (feat_map_a logits_dict)) (\<lambda>normalized_a.
       ebind (normalize_tensor (feat_map_b logits_dict)) (\<lambda>normalized_b.
       ebind (bmax normalized_a normalized_b) (\<lambda>feature_map.
       ebind (index_batch_labels feature_map batch_size labels) (\<lambda>cams.
       Inr (Cams cams)))))
     else Inr (Dict logits_dict))"

text \<open>\<open>argmax(dim=1)\<close> of a matrix: per row, the position of the first largest entry.\<close>

fun argmax_list :: "('a::linorder) list \<Rightarrow> nat" where
  "argmax_list [] = 0"
| "argmax_list [x] = 0"
| "argmax_list (x # y # ys) =
     (let k = argmax_list (y # ys) in if x < (y # ys) ! k then Suc k else 0)"

definition argmax_dim1 :: "('a::linorder) tensor \<Rightarrow> error + int list" where
  "argmax_dim1 t =
     (case shape t of
        [b, n] \<Rightarrow>
          if n = 0 then Inl IndexError
          else Inr (map (\<lambda>i. int (argmax_list (map (\<lambda>j. get t [i, j]) [0..<n]))) [0..<b])
      | _ \<Rightarrow> Inl IndexError)"

record 'a spg_dict =
  attention :: "'a tensor"
  fused_attention :: "'a tensor"
  spg_logits :: "'a tensor"
  logits_b1 :: "'a tensor"
  logits_b2 :: "'a tensor"
  logits_c :: "'a tensor"

text \<open>
  The model of \<open>ResNetSpg.forward\<close> starts at the outputs of its convolutions:
  \<open>feat_map\<close> is the output of \<open>SPG_A4\<close>, \<open>lb1\<close>, \<open>lb2\<close> and \<open>lc\<close> are the branch logits.
  \<open>spg.compute_attention\<close> is imported from a module that is not part of
  \<open>resnet.py\<close>; it is a parameter.
\<close>

definition spg_labels :: "('a::linorder) tensor \<Rightarrow> 'a labels \<Rightarrow> error + 'a labels" where
  "spg_labels logits labels =
     (case labels of
        LNone \<Rightarrow> ebind (argmax_dim1 logits) (\<lambda>ls. Inr (LIndex ls))
      | _ \<Rightarrow> Inr labels)"

definition ResNetSpg_forward ::
  "('a tensor \<Rightarrow> 'a labels \<Rightarrow> 'a tensor \<Rightarrow> 'a tensor \<Rightarrow> error + 'a tensor \<times> 'a tensor)
     \<Rightarrow> nat \<Rightarrow> ('a::linordered_field) tensor \<Rightarrow> 'a tensor \<Rightarrow> 'a tensor \<Rightarrow> 'a tensor
     \<Rightarrow> 'a labels \<Rightarrow> bool \<Rightarrow> error + ('a, 'a spg_dict) fwd_result"
where
  "ResNetSpg_forward compute_attention batch_size feat_map lb1 lb2 lc labels return_cam =
     ebind (avgpool feat_map) (\<lambda>logits.
     ebind (view logits (map int (take 2 (shape logits)))) (\<lambda>logits.
     ebind (spg_labels logits labels) (\<lambda>labels.
     ebind (compute_attention feat_map labels lb1 lb2) (\<lambda>(att, fused).
     if return_cam then
       (let feature_map = feat_map in
        ebind (index_batch_labels feature_map batch_size labels) (\<lambda>cams. Inr (Cams cams)))
     else Inr (Dict \<lparr>attention = att, fused_attention = fused, spg_logits = logits,
                      logits_b1 = lb1, logits_b2 = lb2, logits_c = lc\<rparr>)))))"

section \<open>Checkpoint keys\<close>

subsection \<open>Strings\<close>

text \<open>
  Python's \<open>int\<close> on a string: surrounding whitespace is dropped, one sign is
  allowed, and the digits may be separated by single underscores.
\<close>

definition is_digit :: "char \<Rightarrow> bool" where
  "is_digit c = (48 \<le> (of_char c :: nat) \<and> (of_char c :: nat) \<le> 57)"

definition digit_val :: "char \<Rightarrow> nat" where
  "digit_val c = of_char c - 48"

definition digit_char :: "nat \<Rightarrow> char" where
  "digit_char n = char_of (48 + n)"

definition is_space :: "char \<Rightarrow> bool" where
  "is_space c =
     (let n = (of_char c :: nat) in (9 \<le> n \<and> n \<le> 13) \<or> (28 \<le> n \<and> n \<le> 32) \<or> n = 133 \<or> n = 160)"

definition strip :: "string \<Rightarrow> string" where
  "strip s = rev (dropWhile is_space (rev (dropWhile is_space s)))"

fun digits_ok :: "string \<Rightarrow> bool" where
  "digits_ok [] = False"
| "digits_ok [c] = is_digit c"
| "digits_ok (c # d # cs) =
     (is_digit c \<and> (if d = CHR ''_'' then digits_ok cs else digits_ok (d # cs)))"

definition digits_value :: "string \<Rightarrow> nat" where
  "digits_value s = foldl (\<lambda>acc c. acc * 10 + digit_val c) 0 (filter is_digit s)"

definition py_int :: "string \<Rightarrow> error + int" where
  "py_int s =
     (case strip s of
        [] \<Rightarrow> Inl ValueError
      | c # cs \<Rightarrow>
          if c = CHR ''-'' then
            (if digits_ok cs then Inr (- int (digits_value cs)) else Inl ValueError)
          else if c = CHR ''+'' then
            (if digits_ok cs then Inr (int (digits_value cs)) else Inl ValueError)
          else if digits_ok (c # cs) then Inr (int (digits_value (c # cs)))
          else Inl ValueError)"

fun str_nat :: "nat \<Rightarrow> string" where
  "str_nat n = (if n < 10 then [digit_char n] else str_nat (n div 10) @ [digit_char (n mod 10)])"

declare str_nat.simps [simp del]

definition py_str :: "int \<Rightarrow> string" where
  "py_str i = (if i < 0 then CHR ''-'' # str_nat (nat (- i)) else str_nat (nat i))"

fun split_dot :: "string \<Rightarrow> string list" where
  "split_dot [] = [[]]"
| "split_dot (c # cs) =
     (if c = CHR ''.'' then [] # split_dot cs
      else (case split_dot cs of [] \<Rightarrow> [[c]] | p # ps \<Rightarrow> (c # p) # ps))"

fun join_dot :: "string list \<Rightarrow> string" where
  "join_dot [] = []"
| "join_dot [p] = p"
| "join_dot (p # q # ps) = p @ CHR ''.'' # join_dot (q # ps)"

subsection \<open>\<open>align_layer\<close>\<close>

text \<open>
  A state dict is an association list with distinct keys, in insertion order:
  \<open>pop\<close> deletes an entry, an assignment replaces the value of a key that is present
  and appends a new key otherwise.  \<open>sorted\<close> orders strings by character code.
\<close>

type_synonym 'v state_dict = "(string \<times> 'v) list"

definition ADL_POSITION :: "nat list list" where
  "ADL_POSITION = [[], [], [], [0], [0, 2]]"

definition count_move :: "nat list \<Rightarrow> int \<Rightarrow> int" where
  "count_move positions block = fold (\<lambda>pos move. if int pos < block then move + 1 else move)
     (rev positions) 0"

definition align_key :: "string \<Rightarrow> 'v state_dict \<Rightarrow> error + 'v state_dict" where
  "align_key key state_dict =
     (if \<not> sublist ''layer'' key then Inr state_dict
      else
        let key_sp = split_dot key in
        if hd key_sp = [] then Inl IndexError
        else ebind (py_int [last (hd key_sp)]) (\<lambda>layer_idx.
          if length key_sp < 2 then Inl IndexError
          else
            let block_idx = key_sp ! 1 in
            if layer_idx < 0 \<or> int (length ADL_POSITION) \<le> layer_idx then Inl IndexError
            else
              let positions = ADL_POSITION ! nat layer_idx in
              if positions = [] then Inr state_dict
              else ebind (py_int block_idx) (\<lambda>b.
                let move = count_move positions b;
                    new_key = join_dot (key_sp[1 := py_str (b + move)])
                in (case map_of state_dict key of
                      None \<Rightarrow> Inl (KeyError key)
                    | Some v \<Rightarrow> Inr (AList.update new_key v (AList.delete key state_dict))))))"

fun align_loop :: "string list \<Rightarrow> 'v state_dict \<Rightarrow> error + 'v state_dict" where
  "align_loop [] state_dict = Inr state_dict"
| "align_loop (key # keys) state_dict =
     ebind (align_key key state_dict) (\<lambda>sd. align_loop keys sd)"

definition align_layer :: "'v state_dict \<Rightarrow> error + 'v state_dict" where
  "align_layer state_dict = align_loop (rev (sort (map fst state_dict))) state_dict"

subsection \<open>\<open>ResNetAdl._make_layer\<close>\<close>

text \<open>
  \<open>Block i\<close> is the \<open>i\<close>-th residual block that \<open>_layer\<close> creates; \<open>ADL\<close> is an inserted
  attention-drop module.  \<open>list.insert(i, x)\<close> with \<open>i\<close> beyond the end appends.
\<close>

datatype module = Block nat | ADL

definition layer_blocks :: "nat \<Rightarrow> module list" where
  "layer_blocks blocks = Block 0 # map Block [1..<blocks]"

definition list_insert :: "nat \<Rightarrow> 'a \<Rightarrow> 'a list \<Rightarrow> 'a list" where
  "list_insert i x xs = take i xs @ x # drop i xs"

definition make_layer :: "nat \<Rightarrow> nat list \<Rightarrow> module list" where
  "make_layer blocks split =
     fold (\<lambda>pos layers. list_insert (pos + 1) ADL layers) (rev split) (layer_blocks blocks)"

subsection \<open>The remapping in closed form\<close>

text \<open>
  \<open>shift L B\<close> is the number of positions of \<open>_ADL_POSITION[L]\<close> strictly below \<open>B\<close>.
  \<open>layer_key L B rest\<close> is the key \<open>layerL.B.rest\<close>.  A key is canonical when it is
  such a key with a layer digit below five and a block index of one digit;
  \<open>remap_key\<close> moves the block index of a canonical key up by the shift and leaves
  every other key alone.
\<close>

definition shift :: "nat \<Rightarrow> nat \<Rightarrow> nat" where
  "shift L B = length (filter (\<lambda>pos. pos < B) (ADL_POSITION ! L))"

definition layer_key :: "nat \<Rightarrow> nat \<Rightarrow> string \<Rightarrow> string" where
  "layer_key L B rest = ''layer'' @ str_nat L @ ''.'' @ str_nat B @ ''.'' @ rest"

fun canonical_key :: "string \<Rightarrow> bool" where
  "canonical_key (c1 # c2 # c3 # c4 # c5 # cL # d1 # cB # d2 # rest) =
     ([c1, c2, c3, c4, c5] = ''layer'' \<and> is_digit cL \<and> digit_val cL < 5 \<and> d1 = CHR ''.''
      \<and> is_digit cB \<and> d2 = CHR ''.'')"
| "canonical_key _ = False"

fun remap_key :: "string \<Rightarrow> string" where
  "remap_key (c1 # c2 # c3 # c4 # c5 # cL # d1 # cB # d2 # rest) =
     (if canonical_key (c1 # c2 # c3 # c4 # c5 # cL # d1 # cB # d2 # rest)
      then layer_key (digit_val cL) (digit_val cB + shift (digit_val cL) (digit_val cB)) rest
      else c1 # c2 # c3 # c4 # c5 # cL # d1 # cB # d2 # rest)"
| "remap_key k = k"

section \<open>Loading pretrained weights and the factories\<close>

text \<open>
  Keyword arguments are an association list of Python values.  Reading files and
  URLs, \<open>remove_layer\<close> and \<open>replace_layer\<close> (imported from \<open>util\<close>), the model's
  \<open>load_state_dict\<close> and the constructors of the model classes are not part of
  \<open>resnet.py\<close>; an environment supplies them.  \<open>torch_load\<close> stands for
  \<open>torch.load(path)['state_dict']\<close>.
\<close>

datatype pyval = PStr string | PInt int | PNone

type_synonym kwargs = "(string \<times> pyval) list"

datatype model_class =
    ResNetCam | ResNetGradCam | ResNetAcol | ResNetSpg | ResNetAdl
  | ResNet101GradCam | ResNet101GCN | ResNet101ADDGraphCam
  | ResNext50GradCam | ResNext50GCN

record ('m, 'v) env =
  torch_load :: "string \<Rightarrow> error + 'v state_dict"
  load_url :: "string \<Rightarrow> error + 'v state_dict"
  remove_layer :: "'v state_dict \<Rightarrow> string \<Rightarrow> 'v state_dict"
  replace_layer :: "'v state_dict \<Rightarrow> string \<Rightarrow> string \<Rightarrow> 'v state_dict"
  load_state_dict :: "'m \<Rightarrow> 'v state_dict \<Rightarrow> bool \<Rightarrow> error + 'm"
  construct :: "model_class \<Rightarrow> kwargs \<Rightarrow> error + 'm"

definition model_urls :: "(string \<times> string) list" where
  "model_urls = [(''resnet50'', ''https://download.pytorch.org/models/resnet50-19c8e357.pth'')]"

definition batch_replace_layer :: "('m, 'v) env \<Rightarrow> 'v state_dict \<Rightarrow> 'v state_dict" where
  "batch_replace_layer E state_dict =
     (let state_dict = replace_layer E state_dict ''layer3.0.'' ''SPG_A1.0.'';
          state_dict = replace_layer E state_dict ''layer3.1.'' ''SPG_A2.0.'';
          state_dict = replace_layer E state_dict ''layer3.2.'' ''SPG_A2.1.'';
          state_dict = replace_layer E state_dict ''layer3.3.'' ''SPG_A2.2.'';
          state_dict = replace_layer E state_dict ''layer3.4.'' ''SPG_A2.3.'';
          state_dict = replace_layer E state_dict ''layer3.5.'' ''SPG_A2.4.''
      in state_dict)"

definition read_state_dict ::
  "('m, 'v) env \<Rightarrow> string \<Rightarrow> string option \<Rightarrow> error + 'v state_dict" where
  "read_state_dict E architecture path =
     (case path of
        Some p \<Rightarrow>
          if p \<noteq> [] then torch_load E p
          else (case map_of model_urls architecture of
                  None \<Rightarrow> Inl (KeyError architecture)
                | Some url \<Rightarrow> load_url E url)
      | None \<Rightarrow>
          (case map_of model_urls architecture of
             None \<Rightarrow> Inl (KeyError architecture)
           | Some url \<Rightarrow> load_url E url))"

definition rename_layers ::
  "('m, 'v) env \<Rightarrow> string \<Rightarrow> 'v state_dict \<Rightarrow> error + 'v state_dict" where
  "rename_layers E wsol_method state_dict =
     (if wsol_method = ''adl'' then align_layer state_dict
      else if wsol_method = ''spg'' then Inr (batch_replace_layer E state_dict)
      else Inr state_dict)"

definition lenient_rule :: "string \<Rightarrow> string option \<Rightarrow> kwargs \<Rightarrow> error + bool" where
  "lenient_rule wsol_method path kwargs =
     (if path = None then
        (case map_of kwargs ''dataset_name'' of
           None \<Rightarrow> Inl (KeyError ''dataset_name'')
         | Some d \<Rightarrow> Inr (d \<noteq> PStr ''ILSVRC'' \<or> wsol_method \<in> set [''acol'', ''spg'']))
      else Inr False)"

definition load_pretrained ::
  "('m, 'v) env \<Rightarrow> 'm \<Rightarrow> string \<Rightarrow> string \<Rightarrow> string option \<Rightarrow> kwargs \<Rightarrow> error + 'm" where
  "load_pretrained E model wsol_method architecture path kwargs =
     ebind (read_state_dict E architecture path) (\<lambda>state_dict.
     ebind (rename_layers E wsol_method state_dict) (\<lambda>state_dict.
     ebind (lenient_rule wsol_method path kwargs) (\<lambda>lenient.
     if lenient then load_state_dict E model (remove_layer E state_dict ''fc'') False
     else load_state_dict E model state_dict True)))"

text \<open>
  The factories record which external calls they make, in order.
\<close>

datatype call = Construct model_class | LoadPretrained string

definition factory ::
  "(string \<times> model_class) list \<Rightarrow> string \<Rightarrow> ('m, 'v) env \<Rightarrow> string \<Rightarrow> bool \<Rightarrow> string option
     \<Rightarrow> kwargs \<Rightarrow> call list \<times> (error + 'm)"
where
  "factory registry architecture E wsol_method pretrained pretrained_path kwargs =
     (case map_of registry wsol_method of
        None \<Rightarrow> ([], Inl (KeyError wsol_method))
      | Some cls \<Rightarrow>
          (case construct E cls kwargs of
             Inl e \<Rightarrow> ([Construct cls], Inl e)
           | Inr model \<Rightarrow>
               if pretrained then
                 ([Construct cls, LoadPretrained architecture],
                  load_pretrained E model wsol_method architecture pretrained_path kwargs)
               else ([Construct cls], Inr model)))"

definition resnet50_models :: "(string \<times> model_class) list" where
  "resnet50_models =
     [(''cam'', ResNetCam), (''grad_cam'', ResNetGradCam), (''acol'', ResNetAcol),
      (''spg'', ResNetSpg), (''adl'', ResNetAdl)]"

definition resnet101_models :: "(string \<times> model_class) list" where
  "resnet101_models =
     [(''grad_cam'', ResNet101GradCam), (''graph_cam'', ResNet101GCN),
      (''addgraph_cam'', ResNet101ADDGraphCam)]"

definition resnext50_models :: "(string \<times> model_class) list" where
  "resnext50_models = [(''grad_cam'', ResNext50GradCam), (''graph_cam'', ResNext50GCN)]"

definition resnet50 ::
  "('m, 'v) env \<Rightarrow> string \<Rightarrow> bool \<Rightarrow> string option \<Rightarrow> kwargs \<Rightarrow> call list \<times> (error + 'm)" where
  "resnet50 = factory resnet50_models ''resnet50''"

definition resnet101 ::
  "('m, 'v) env \<Rightarrow> string \<Rightarrow> bool \<Rightarrow> string option \<Rightarrow> kwargs \<Rightarrow> call list \<times> (error + 'm)" where
  "resnet101 = factory resnet101_models ''resnet101''"

definition resnext50 ::
  "('m, 'v) env \<Rightarrow> string \<Rightarrow> bool \<Rightarrow> string option \<Rightarrow> kwargs \<Rightarrow> call list \<times> (error + 'm)" where
  "resnext50 = factory resnext50_models ''resnext50''"

text \<open>
  \<open>torch.nn.Module.load_state_dict\<close>: the keys the module expects and does not get
  are missing, the keys it gets and does not expect are unexpected; under
  \<open>strict\<close> either kind raises with both lists, otherwise the common keys are loaded.
\<close>

record 'v net =
  net_class :: model_class
  net_state :: "'v state_dict"

definition nn_load_state_dict :: "'v net \<Rightarrow> 'v state_dict \<Rightarrow> bool \<Rightarrow> error + 'v net" where
  "nn_load_state_dict m sd strict =
     (let missing = filter (\<lambda>k. k \<notin> set (map fst sd)) (map fst (net_state m));
          unexpected = filter (\<lambda>k. k \<notin> set (map fst (net_state m))) (map fst sd)
      in if strict \<and> (missing \<noteq> [] \<or> unexpected \<noteq> []) then Inl (LoadError missing unexpected)
         else Inr (m\<lparr>net_state :=
                map (\<lambda>(k, v). (k, case map_of sd k of None \<Rightarrow> v | Some v' \<Rightarrow> v')) (net_state m)\<rparr>))"

text \<open>
  The condition for lenient loading in the words of the specification: the class
  count or the dataset differs from the pretrained source, which for the weights
  of \<open>model_urls\<close> is ILSVRC with 1000 classes.
\<close>

definition spec_lenient :: "kwargs \<Rightarrow> bool" where
  "spec_lenient kwargs =
     (map_of kwargs ''dataset_name'' \<noteq> Some (PStr ''ILSVRC'')
      \<or> map_of kwargs ''num_classes'' \<noteq> Some (PInt 1000))"

section \<open>Concrete inputs\<close>

definition util_remove_layer :: "int state_dict \<Rightarrow> string \<Rightarrow> int state_dict" where
  "util_remove_layer sd keyword = filter (\<lambda>(key, v). \<not> sublist keyword key) sd"

definition env_example :: "(int net, int) env" where
  "env_example =
     \<lparr>torch_load = (\<lambda>p. Inr [(''conv1.weight'', 1)]),
      load_url = (\<lambda>u. Inr [(''conv1.weight'', 1), (''fc.weight'', 2)]),
      remove_layer = util_remove_layer,
      replace_layer = (\<lambda>sd a b. sd),
      load_state_dict = nn_load_state_dict,
      construct = (\<lambda>c kw. Inr \<lparr>net_class = c, net_state = [(''conv1.weight'', 0)]\<rparr>)\<rparr>"

definition net_example :: "int net" where
  "net_example = \<lparr>net_class = ResNetAcol, net_state = [(''conv1.weight'', 0)]\<rparr>"

definition cam_weight_example :: "rat tensor" where
  "cam_weight_example = \<lparr>shape = [2, 2], data = [1, 2, 3, 5]\<rparr>"

definition cam_bias_example :: "rat tensor" where
  "cam_bias_example = \<lparr>shape = [2], data = [0, 0]\<rparr>"

definition ones_feature_example :: "rat tensor" where
  "ones_feature_example = \<lparr>shape = [1, 2, 1, 2], data = [1, 1, 1, 1]\<rparr>"

definition two_sample_feature_example :: "rat tensor" where
  "two_sample_feature_example = \<lparr>shape = [2, 2, 1, 1], data = [1, 1, 10, 10]\<rparr>"

definition all_labels_example :: "rat tensor" where
  "all_labels_example = \<lparr>shape = [2, 2], data = [1, 1, 1, 1]\<rparr>"

text \<open>
  Modelled from the spec: \<open>normalize_tensor\<close>, imported from \<open>methods.util\<close>, which is
  not part of \<open>resnet.py\<close>.  The specification calls it min-max normalisation per
  sample: an entry \<open>v\<close> of a sample becomes \<open>(v - lo) / (hi - lo)\<close>, where \<open>lo\<close> and \<open>hi\<close>
  are the least and the largest entry of that sample.  It is used as a concrete
  argument of \<open>ResNetAcol_forward\<close> only.
\<close>

definition minmax_normalize :: "rat tensor \<Rightarrow> error + rat tensor" where
  "minmax_normalize t =
     (case shape t of
        [] \<Rightarrow> Inl RuntimeError
      | b # rest \<Rightarrow>
          Inr (tabulate (shape t)
            (\<lambda>idx. let m = numel rest;
                       sample = map (\<lambda>k. data t ! (hd idx * m + k)) [0..<m];
                       lo = fold min sample (hd sample);
                       hi = fold max sample (hd sample)
                   in (get t idx - lo) / (hi - lo))))"

definition branch_a_example :: "rat tensor" where
  "branch_a_example = \<lparr>shape = [1, 2, 1, 2], data = [0, 1, 2, 4]\<rparr>"

definition branch_b_example :: "rat tensor" where
  "branch_b_example = \<lparr>shape = [1, 2, 1, 2], data = [4, 0, 1, 3]\<rparr>"

definition acol_logits_example :: "rat tensor \<Rightarrow> rat labels \<Rightarrow> rat \<Rightarrow> error + rat acol_dict" where
  "acol_logits_example feature labels drop_threshold =
     Inr \<lparr>acol_logits = feature, feat_map_a = branch_a_example, feat_map_b = branch_b_example\<rparr>"

definition attention_example ::
  "rat tensor \<Rightarrow> rat labels \<Rightarrow> rat tensor \<Rightarrow> rat tensor \<Rightarrow> error + rat tensor \<times> rat tensor" where
  "attention_example feat_map labels lb1 lb2 = Inr (lb1, lb2)"

definition spg_feat_example :: "rat tensor" where
  "spg_feat_example = \<lparr>shape = [1, 2, 1, 2], data = [1, 2, 5, 7]\<rparr>"

definition state_dict_example :: "int state_dict" where
  "state_dict_example =
     [(''conv1.weight'', 1), (''layer1.0.w'', 10), (''layer3.0.w'', 30), (''layer3.1.w'', 31),
      (''layer3.5.w'', 35), (''layer4.0.w'', 40), (''layer4.1.w'', 41), (''layer4.2.w'', 42),
      (''fc.weight'', 7)]"

definition kwargs_ilsvrc :: kwargs where
  "kwargs_ilsvrc = [(''dataset_name'', PStr ''ILSVRC''), (''num_classes'', PInt 1000)]"

section \<open>Basic facts\<close>

lemma ebind_Inr [simp]: "ebind (Inr v) f = f v"
  by (simp add: ebind_def)

lemma ebind_Inl [simp]: "ebind (Inl e) f = Inl e"
  by (simp add: ebind_def)

lemma numel_Nil [simp]: "numel [] = 1"
  by (simp add: numel_def)

lemma numel_Cons [simp]: "numel (d # ds) = d * numel ds"
  by (simp add: numel_def)

lemma ravel_less: "valid_index sh idx \<Longrightarrow> ravel sh idx < numel sh"
proof (induction sh idx rule: valid_index.induct)
  case (2 d ds i js)
  then have "i < d" and r: "ravel ds js < numel ds" by simp_all
  then have "Suc i \<le> d" by simp
  then have "Suc i * numel ds \<le> d * numel ds" by (rule mult_le_mono1)
  with r show ?case by simp
qed simp_all

lemma unravel_ravel: "valid_index sh idx \<Longrightarrow> unravel sh (ravel sh idx) = idx"
proof (induction sh idx rule: valid_index.induct)
  case (2 d ds i js)
  then have r: "ravel ds js < numel ds" by (simp add: ravel_less)
  with 2 show ?case by simp
qed simp_all

lemma valid_unravel: "n < numel sh \<Longrightarrow> valid_index sh (unravel sh n)"
proof (induction sh arbitrary: n)
  case (Cons d ds)
  then have pos: "0 < numel ds" by (cases "numel ds") simp_all
  from Cons.prems have "n div numel ds < d"
    by (simp add: less_mult_imp_div_less mult.commute)
  moreover have "n mod numel ds < numel ds" using pos by simp
  ultimately show ?case using Cons.IH by simp
qed simp

lemma shape_tabulate [simp]: "shape (tabulate sh f) = sh"
  by (simp add: tabulate_def)

lemma wf_tabulate [simp]: "wf_tensor (tabulate sh f)"
  by (simp add: tabulate_def wf_tensor_def)

lemma get_tabulate: "valid_index sh idx \<Longrightarrow> get (tabulate sh f) idx = f idx"
  by (simp add: get_def tabulate_def ravel_less unravel_ravel)

lemma clip_valid:
  "valid_index sh idx \<Longrightarrow> map2 (\<lambda>d i. if d = 1 then 0 else i) sh idx = idx"
  by (induction sh idx rule: valid_index.induct) auto

lemma valid_index_length: "valid_index sh idx \<Longrightarrow> length idx = length sh"
  by (induction sh idx rule: valid_index.induct) auto

lemma bget_valid:
  assumes "valid_index (shape t) idx"
  shows "bget t idx = get t idx"
proof -
  have "drop (length idx - length (shape t)) idx = idx"
    using valid_index_length [OF assms] by simp
  then show ?thesis
    unfolding bget_def using clip_valid [OF assms] by simp
qed

lemma sum_list_upt_cong:
  "(\<And>k. k < n \<Longrightarrow> f k = g k) \<Longrightarrow> sum_list (map f [0..<n]) = sum_list (map g [0..<n])"
  by (rule arg_cong [where f = sum_list]) simp

lemma sum_list_upt_sum: "sum_list (map f [0..<n]) = (\<Sum>k<n. f k)"
  by (simp add: interv_sum_list_conv_sum_set_nat atLeast0LessThan)

section \<open>The factories\<close>

lemma factory_unknown:
  "wsol_method \<notin> fst ` set registry \<Longrightarrow>
     factory registry arch E wsol_method pretrained path kwargs = ([], Inl (KeyError wsol_method))"
proof -
  assume "wsol_method \<notin> fst ` set registry"
  then have "map_of registry wsol_method = None"
    by (simp add: map_of_eq_None_iff)
  then show ?thesis
    by (simp add: factory_def)
qed

text \<open>
  Claim C6.  A method name that a factory does not register makes \<open>resnet50\<close>,
  \<open>resnet101\<close> and \<open>resnext50\<close> raise \<open>KeyError\<close> at the dispatch: the list of external
  calls is empty, so no constructor has run and nothing has been loaded.
\<close>

theorem unknown_method_fails_fast:
  "(wsol_method \<notin> set [''cam'', ''grad_cam'', ''acol'', ''spg'', ''adl''] \<longrightarrow>
      resnet50 E wsol_method pretrained path kwargs = ([], Inl (KeyError wsol_method)))
   \<and> (wsol_method \<notin> set [''grad_cam'', ''graph_cam'', ''addgraph_cam''] \<longrightarrow>
      resnet101 E wsol_method pretrained path kwargs = ([], Inl (KeyError wsol_method)))
   \<and> (wsol_method \<notin> set [''grad_cam'', ''graph_cam''] \<longrightarrow>
      resnext50 E wsol_method pretrained path kwargs = ([], Inl (KeyError wsol_method)))"
  by (simp add: resnet50_def resnet101_def resnext50_def factory_unknown
       resnet50_models_def resnet101_models_def resnext50_models_def)

theorem unknown_method_fails_fast_witness:
  "resnet50 env_example ''cam2'' True None kwargs_ilsvrc = ([], Inl (KeyError ''cam2''))
   \<and> resnet101 env_example ''cam2'' True None kwargs_ilsvrc = ([], Inl (KeyError ''cam2''))
   \<and> resnext50 env_example ''cam2'' True None kwargs_ilsvrc = ([], Inl (KeyError ''cam2''))"
  using unknown_method_fails_fast [of "''cam2''" env_example True None kwargs_ilsvrc]
  by simp

section \<open>Strict and lenient checkpoint loading\<close>

text \<open>
  The stated condition for lenient loading fails on the code: with the ImageNet
  weights, \<open>dataset_name = 'ILSVRC'\<close>, 1000 classes and the method \<open>acol\<close>, neither the
  class count nor the dataset differs from the pretrained source, yet the
  checkpoint is loaded leniently (its \<open>fc\<close> key, which strict loading rejects as
  unexpected, has been removed).
\<close>

theorem lenient_loading_counterexample:
  "load_pretrained env_example net_example ''acol'' ''resnet50'' None kwargs_ilsvrc
       = Inr \<lparr>net_class = ResNetAcol, net_state = [(''conv1.weight'', 1)]\<rparr>
   \<and> nn_load_state_dict net_example [(''conv1.weight'', 1), (''fc.weight'', 2)] True
       = Inl (LoadError [] [''fc.weight''])
   \<and> \<not> spec_lenient kwargs_ilsvrc"
  by (simp add: load_pretrained_def read_state_dict_def rename_layers_def lenient_rule_def
       model_urls_def env_example_def net_example_def kwargs_ilsvrc_def spec_lenient_def
       nn_load_state_dict_def util_remove_layer_def sublist_code prefix_code)

lemma nn_strict_mismatch:
  assumes "set (map fst sd) \<noteq> set (map fst (net_state m))"
  shows "\<exists>missing unexpected.
           nn_load_state_dict m sd True = Inl (LoadError missing unexpected)
           \<and> set missing = set (map fst (net_state m)) - set (map fst sd)
           \<and> set unexpected = set (map fst sd) - set (map fst (net_state m))
           \<and> (missing \<noteq> [] \<or> unexpected \<noteq> [])"
proof -
  define missing where "missing = filter (\<lambda>k. k \<notin> set (map fst sd)) (map fst (net_state m))"
  define unexpected where
    "unexpected = filter (\<lambda>k. k \<notin> set (map fst (net_state m))) (map fst sd)"
  have m: "set missing = set (map fst (net_state m)) - set (map fst sd)"
    unfolding missing_def by (simp only: set_filter) blast
  have u: "set unexpected = set (map fst sd) - set (map fst (net_state m))"
    unfolding unexpected_def by (simp only: set_filter) blast
  have ne: "missing \<noteq> [] \<or> unexpected \<noteq> []"
  proof (rule ccontr)
    assume "\<not> ?thesis"
    then have "set missing = {}" and "set unexpected = {}" by simp_all
    then have "set (map fst (net_state m)) \<subseteq> set (map fst sd)"
      and "set (map fst sd) \<subseteq> set (map fst (net_state m))"
      unfolding m u by simp_all
    then have "set (map fst sd) = set (map fst (net_state m))" by (rule_tac equalityI)
    with assms show False by contradiction
  qed
  have "nn_load_state_dict m sd True = Inl (LoadError missing unexpected)"
    using ne unfolding nn_load_state_dict_def Let_def missing_def unexpected_def
    by (simp only: if_True simp_thms)
  then show ?thesis
    using m u ne by (intro exI conjI)
qed

text \<open>
  Claim C7, amended.  \<open>load_pretrained\<close> removes the \<open>fc\<close> keys and loads non-strictly
  exactly when no checkpoint path is given and either \<open>dataset_name\<close> is not
  \<open>'ILSVRC'\<close> or the method is \<open>acol\<close> or \<open>spg\<close>; in every other case in which it
  reaches \<open>load_state_dict\<close> it loads the state dict unchanged and strictly.  Strict
  loading of a state dict whose keys are not the keys of the module raises with the
  lists of the missing and of the unexpected keys.
\<close>

theorem load_pretrained_strictness:
  assumes "read_state_dict E architecture path = Inr sd0"
    and "rename_layers E wsol_method sd0 = Inr sd"
    and "path = None \<longrightarrow> map_of kwargs ''dataset_name'' = Some d"
  shows "load_pretrained E model wsol_method architecture path kwargs
           = (if path = None \<and> (d \<noteq> PStr ''ILSVRC'' \<or> wsol_method = ''acol'' \<or> wsol_method = ''spg'')
              then load_state_dict E model (remove_layer E sd ''fc'') False
              else load_state_dict E model sd True)
         \<and> (set (map fst sd') \<noteq> set (map fst (net_state m)) \<longrightarrow>
              (\<exists>missing unexpected.
                 nn_load_state_dict m sd' True = Inl (LoadError missing unexpected)
                 \<and> set missing = set (map fst (net_state m)) - set (map fst sd')
                 \<and> set unexpected = set (map fst sd') - set (map fst (net_state m))
                 \<and> (missing \<noteq> [] \<or> unexpected \<noteq> [])))"
proof
  show "load_pretrained E model wsol_method architecture path kwargs
           = (if path = None \<and> (d \<noteq> PStr ''ILSVRC'' \<or> wsol_method = ''acol'' \<or> wsol_method = ''spg'')
              then load_state_dict E model (remove_layer E sd ''fc'') False
              else load_state_dict E model sd True)"
    using assms by (cases path) (auto simp: load_pretrained_def lenient_rule_def)
next
  show "set (map fst sd') \<noteq> set (map fst (net_state m)) \<longrightarrow>
              (\<exists>missing unexpected.
                 nn_load_state_dict m sd' True = Inl (LoadError missing unexpected)
                 \<and> set missing = set (map fst (net_state m)) - set (map fst sd')
                 \<and> set unexpected = set (map fst sd') - set (map fst (net_state m))
                 \<and> (missing \<noteq> [] \<or> unexpected \<noteq> []))"
    using nn_strict_mismatch by blast
qed

theorem load_pretrained_strictness_witness:
  "load_pretrained env_example net_example ''cam'' ''resnet50'' None kwargs_ilsvrc
       = Inl (LoadError [] [''fc.weight''])
   \<and> load_pretrained env_example net_example ''cam'' ''resnet50'' None [(''dataset_name'', PStr ''CUB'')]
       = Inr \<lparr>net_class = ResNetAcol, net_state = [(''conv1.weight'', 1)]\<rparr>
   \<and> (\<exists>missing unexpected.
         nn_load_state_dict net_example [(''conv1.weight'', 1), (''fc.weight'', 2)] True
           = Inl (LoadError missing unexpected)
         \<and> set missing = {} \<and> set unexpected = {''fc.weight''})"
proof -
  let ?sd = "[(''conv1.weight'', 1), (''fc.weight'', 2)] :: int state_dict"
  have r: "read_state_dict env_example ''resnet50'' None = Inr ?sd"
    by (simp add: read_state_dict_def model_urls_def env_example_def)
  have n: "rename_layers env_example ''cam'' ?sd = Inr ?sd"
    by (simp add: rename_layers_def)
  have k1: "None = (None :: string option) \<longrightarrow> map_of kwargs_ilsvrc ''dataset_name'' = Some (PStr ''ILSVRC'')"
    by (simp add: kwargs_ilsvrc_def)
  have k2: "None = (None :: string option) \<longrightarrow>
      map_of [(''dataset_name'', PStr ''CUB'')] ''dataset_name'' = Some (PStr ''CUB'')"
    by simp
  have rm: "remove_layer env_example ?sd ''fc'' = [(''conv1.weight'', 1)]"
    by (simp add: env_example_def util_remove_layer_def sublist_code prefix_code)
  have ld: "load_state_dict env_example = nn_load_state_dict"
    by (simp add: env_example_def)
  have s1: "nn_load_state_dict net_example ?sd True = Inl (LoadError [] [''fc.weight''])"
    by (simp add: nn_load_state_dict_def net_example_def)
  have s2: "nn_load_state_dict net_example [(''conv1.weight'', 1)] False
      = Inr \<lparr>net_class = ResNetAcol, net_state = [(''conv1.weight'', 1)]\<rparr>"
    by (simp add: nn_load_state_dict_def net_example_def)
  have ne: "set (map fst ?sd) \<noteq> set (map fst (net_state net_example))"
    by (simp add: net_example_def)
  have a: "load_pretrained env_example net_example ''cam'' ''resnet50'' None kwargs_ilsvrc
       = Inl (LoadError [] [''fc.weight''])"
    using load_pretrained_strictness [OF r n k1, of net_example ?sd net_example]
    by (simp add: ld s1)
  have b: "load_pretrained env_example net_example ''cam'' ''resnet50'' None [(''dataset_name'', PStr ''CUB'')]
       = Inr \<lparr>net_class = ResNetAcol, net_state = [(''conv1.weight'', 1)]\<rparr>"
    using load_pretrained_strictness [OF r n k2, of net_example ?sd net_example]
    by (simp add: ld rm s2)
  have c: "\<exists>missing unexpected.
         nn_load_state_dict net_example ?sd True = Inl (LoadError missing unexpected)
         \<and> set missing = {} \<and> set unexpected = {''fc.weight''}"
    using s1 by simp
  from a b c show ?thesis by blast
qed

section \<open>Shapes along \<open>forward\<close>\<close>

lemma int_ne_m1 [simp]: "int a \<noteq> - 1" "- 1 \<noteq> int a" "\<not> int a < - 1"
  by linarith+

lemma infer_shape_plain:
  assumes "\<forall>d \<in> set dims. 0 \<le> d" and "numel (map nat dims) = n"
  shows "infer_shape n dims = Inr (map nat dims)"
proof -
  have a: "\<not> (\<exists>d \<in> set dims. d < -1)" using assms(1) by fastforce
  have b: "filter (\<lambda>d. d = -1) dims = []" using assms(1) by (fastforce simp: filter_empty_conv)
  have c: "-1 \<notin> set dims" using assms(1) by fastforce
  show ?thesis unfolding infer_shape_def using a b c assms(2) by simp
qed

lemma infer_shape_last:
  "infer_shape n [int a, -1] =
     (if a = 0 \<or> n mod a \<noteq> 0 then Inl RuntimeError else Inr [a, n div a])"
  by (simp add: infer_shape_def)

lemma infer_shape_mid:
  "infer_shape n [int a, -1, int c] =
     (if a * c = 0 \<or> n mod (a * c) \<noteq> 0 then Inl RuntimeError else Inr [a, n div (a * c), c])"
  by (simp add: infer_shape_def)

lemma infer_shape_five:
  "infer_shape n [int a, int b, -1, 1, 1] =
     (if a * b = 0 \<or> n mod (a * b) \<noteq> 0 then Inl RuntimeError
      else Inr [a, b, n div (a * b), 1, 1])"
  by (simp add: infer_shape_def)

lemma view_data: "view t dims = Inr v \<Longrightarrow> data v = data t"
  by (auto simp: view_def ebind_def split: sum.splits)

lemma norm_indices_ok:
  assumes "\<forall>l \<in> set ls. - int n \<le> l \<and> l < int n"
  shows "\<exists>ks. norm_indices n ls = Inr ks \<and> length ks = length ls
            \<and> (\<forall>i < length ls. ks ! i = nat (ls ! i mod int n))"
  using assms
proof (induction ls)
  case Nil
  then show ?case by simp
next
  case (Cons l ls)
  then obtain ks where ks: "norm_indices n ls = Inr ks" "length ks = length ls"
    "\<forall>i < length ls. ks ! i = nat (ls ! i mod int n)" by auto
  from Cons.prems have r: "- int n \<le> l" "l < int n" by simp_all
  have k: "norm_index n l = Inr (nat (l mod int n))"
  proof (cases "0 \<le> l")
    case True
    with r show ?thesis by (simp add: norm_index_def)
  next
    case False
    with r have "l mod int n = int n + l"
      by (smt (verit) mod_add_self1 mod_pos_pos_trivial)
    with False r show ?thesis by (simp add: norm_index_def)
  qed
  have "\<forall>i < length (l # ls). (nat (l mod int n) # ks) ! i = nat ((l # ls) ! i mod int n)"
    using ks(3) by (auto simp: nth_Cons split: nat.splits)
  with ks k show ?case by simp
qed

lemma avgpool_ok:
  assumes "shape x = [B, C, H, W]" "0 < C" "0 < H" "0 < W"
  shows "\<exists>p. avgpool x = Inr p \<and> shape p = [B, C, 1, 1]"
  using assms by (simp add: avgpool_def)

lemma fc_logits_ok:
  assumes "shape x = [B, C, H, W]" "0 < B" "0 < C" "0 < H" "0 < W"
    and "shape w = [n, C]" "shape bias = [n]"
  shows "\<exists>lg. fc_logits w bias x = Inr lg \<and> shape lg = [B, n]"
proof -
  obtain p where p: "avgpool x = Inr p" "shape p = [B, C, 1, 1]"
    using avgpool_ok [OF assms(1,3,4,5)] by blast
  have v: "view p [int (hd (shape p)), -1] = Inr (p\<lparr>shape := [B, C]\<rparr>)"
    using p(2) assms(2) by (simp add: view_def infer_shape_last)
  show ?thesis
    using p v assms(6,7) by (simp add: fc_logits_def linear_def)
qed

lemma broadcast_same: "broadcast_dims sh sh = Inr sh"
  by (induction sh) simp_all

lemma broadcast_stretch_left:
  "broadcast_dims [B, C, 1, 1] [B, C, H, W] = Inr [B, C, H, W]"
  by simp


lemma cam_chain:
  fixes x cw :: "('a::field) tensor"
  assumes x: "shape x = [B, C, H, W]" and n: "numel (shape cw) = B * C"
  shows "\<exists>cams. ebind (view cw (map int (take 2 (shape x)) @ [1, 1])) (\<lambda>v.
                  ebind (bmul v x) (\<lambda>p.
                  ebind (mean_dim 1 p) (\<lambda>cams. Inr (Cams cams))))
             = (Inr (Cams cams) :: error + ('a, 'a tensor) fwd_result)
           \<and> shape cams = [B, H, W]
           \<and> (\<forall>b<B. \<forall>h<H. \<forall>v<W.
                 get cams [b, h, v]
                   = (\<Sum>k<C. data cw ! (b * C + k) * get x [b, k, h, v]) / of_nat C)"
proof -
  define v where "v = cw\<lparr>shape := [B, C, 1, 1]\<rparr>"
  define p where "p = tabulate [B, C, H, W] (\<lambda>idx. bget v idx * bget x idx)"
  define cams where "cams = tabulate [B, H, W]
     (\<lambda>idx. sum_list (map (\<lambda>j. get p (take 1 idx @ j # drop 1 idx)) [0..<C]) / of_nat C)"
  have "infer_shape (numel (shape cw)) [int B, int C, 1, 1] = Inr (map nat [int B, int C, 1, 1])"
    by (rule infer_shape_plain) (simp_all add: n)
  then have 1: "view cw (map int (take 2 (shape x)) @ [1, 1]) = Inr v"
    by (simp add: view_def x v_def)
  have sv: "shape v = [B, C, 1, 1]" by (simp add: v_def)
  have 2: "bmul v x = Inr p"
    by (simp add: bmul_def broadcast_shape_def pad_shape_def sv x p_def)
  have sp: "shape p = [B, C, H, W]" by (simp add: p_def)
  have 3: "mean_dim 1 p = Inr cams"
    by (simp add: mean_dim_def sp cams_def)
  have e: "get cams [b, h, w] = (\<Sum>k<C. data cw ! (b * C + k) * get x [b, k, h, w]) / of_nat C"
    if b: "b < B" and h: "h < H" and w: "w < W" for b h w
  proof -
    have "get cams [b, h, w]
            = sum_list (map (\<lambda>j. get p [b, j, h, w]) [0..<C]) / of_nat C"
      unfolding cams_def using b h w by (simp add: get_tabulate)
    also have "sum_list (map (\<lambda>j. get p [b, j, h, w]) [0..<C])
            = sum_list (map (\<lambda>k. data cw ! (b * C + k) * get x [b, k, h, w]) [0..<C])"
    proof (rule sum_list_upt_cong)
      fix k assume k: "k < C"
      have val: "valid_index [B, C, H, W] [b, k, h, w]" using b k h w by simp
      have gp: "get p [b, k, h, w] = bget v [b, k, h, w] * bget x [b, k, h, w]"
        unfolding p_def using val by (rule get_tabulate)
      have gx: "bget x [b, k, h, w] = get x [b, k, h, w]"
        using val by (simp add: bget_valid x)
      have "bget v [b, k, h, w] = get v [b, k, 0, 0]"
        using b k by (auto simp: bget_def sv)
      also have "\<dots> = data cw ! (b * C + k)"
        by (simp add: get_def sv v_def)
      finally show "get p [b, k, h, w] = data cw ! (b * C + k) * get x [b, k, h, w]"
        using gp gx by simp
    qed
    finally show ?thesis by (simp add: sum_list_upt_sum)
  qed
  have "shape cams = [B, H, W]" by (simp add: cams_def)
  with 1 2 3 e show ?thesis by auto
qed

lemma infer_shape_mismatch:
  assumes "\<forall>d \<in> set dims. 0 \<le> d" and "numel (map nat dims) \<noteq> n"
  shows "infer_shape n dims = Inl RuntimeError"
proof -
  have a: "\<not> (\<exists>d \<in> set dims. d < -1)" using assms(1) by fastforce
  have b: "filter (\<lambda>d. d = -1) dims = []" using assms(1) by (fastforce simp: filter_empty_conv)
  have c: "-1 \<notin> set dims" using assms(1) by fastforce
  show ?thesis unfolding infer_shape_def using a b c assms(2) by simp
qed

lemma get2: "get t [i, j] = data t ! ravel (shape t) [i, j]"
  by (simp add: get_def)

section \<open>The plain class activation map\<close>

text \<open>
  Claim C1.  For \<open>classif_type = "multi_class"\<close>, a feature map of shape
  \<open>(B, C, H, W)\<close> and one class index per sample, \<open>forward\<close> with \<open>return_cam\<close> returns
  a tensor of shape \<open>(B, H, W)\<close> whose entry at sample \<open>b\<close> and pixel \<open>(h, v)\<close> is the mean
  over the channels of the feature map weighted by the classifier row of
  \<open>labels[b]\<close>; on a feature map of ones every pixel is the mean of that row.
\<close>

theorem plain_cam_closed_form:
  fixes x :: "('a::field) tensor"
  assumes x: "shape x = [B, C, H, W]" and pos: "0 < B" "0 < C" "0 < H" "0 < W"
    and w: "shape fc_weight = [n, C]" and bias: "shape fc_bias = [n]"
    and len: "length ls = B" and rng: "\<forall>l \<in> set ls. - int n \<le> l \<and> l < int n"
  shows "\<exists>cams.
           ResNetCam_forward ''multi_class'' fc_weight fc_bias x (LIndex ls) True = Inr (Cams cams)
           \<and> shape cams = [B, H, W]
           \<and> (\<forall>b<B. \<forall>h<H. \<forall>v<W.
                 get cams [b, h, v]
                   = (\<Sum>k<C. get fc_weight [nat (ls ! b mod int n), k] * get x [b, k, h, v])
                       / of_nat C)
           \<and> ((\<forall>b<B. \<forall>k<C. \<forall>h<H. \<forall>v<W. get x [b, k, h, v] = 1) \<longrightarrow>
                (\<forall>b<B. \<forall>h<H. \<forall>v<W.
                   get cams [b, h, v]
                     = (\<Sum>k<C. get fc_weight [nat (ls ! b mod int n), k]) / of_nat C))"
proof -
  obtain lg where lg: "fc_logits fc_weight fc_bias x = Inr lg"
    using fc_logits_ok [OF x pos w bias] by blast
  obtain ks where ks: "norm_indices n ls = Inr ks" "length ks = length ls"
    "\<forall>i < length ls. ks ! i = nat (ls ! i mod int n)"
    using norm_indices_ok [OF rng] by blast
  define cw where "cw = tabulate [B, C] (\<lambda>idx. get fc_weight ((ks ! hd idx) # tl idx))"
  have il: "index_labels fc_weight (LIndex ls) = Inr cw"
    by (simp add: index_labels_def index_rows_def w ks(1) ks(2) len cw_def)
  have ncw: "numel (shape cw) = B * C" by (simp add: cw_def)
  obtain cams where c:
    "ebind (view cw (map int (take 2 (shape x)) @ [1, 1])) (\<lambda>v.
       ebind (bmul v x) (\<lambda>p.
       ebind (mean_dim 1 p) (\<lambda>cams. Inr (Cams cams)))) = (Inr (Cams cams) :: error + ('a, 'a tensor) fwd_result)"
    "shape cams = [B, H, W]"
    "\<forall>b<B. \<forall>h<H. \<forall>v<W.
        get cams [b, h, v] = (\<Sum>k<C. data cw ! (b * C + k) * get x [b, k, h, v]) / of_nat C"
    using cam_chain [OF x ncw] by blast
  have fw: "ResNetCam_forward ''multi_class'' fc_weight fc_bias x (LIndex ls) True = Inr (Cams cams)"
    using c(1) by (simp add: ResNetCam_forward_def lg il)
  have row: "data cw ! (b * C + k) = get fc_weight [nat (ls ! b mod int n), k]"
    if "b < B" "k < C" for b k
  proof -
    have "data cw ! (b * C + k) = get cw [b, k]" by (simp add: get_def cw_def)
    also have "\<dots> = get fc_weight [ks ! b, k]"
      unfolding cw_def using that by (simp add: get_tabulate)
    finally show ?thesis using ks(3) that(1) len by simp
  qed
  have f: "get cams [b, h, v]
             = (\<Sum>k<C. get fc_weight [nat (ls ! b mod int n), k] * get x [b, k, h, v]) / of_nat C"
    if "b < B" "h < H" "v < W" for b h v
    using c(3) that row by simp
  have g: "get cams [b, h, v] = (\<Sum>k<C. get fc_weight [nat (ls ! b mod int n), k]) / of_nat C"
    if "b < B" "h < H" "v < W" and ones: "\<forall>b<B. \<forall>k<C. \<forall>h<H. \<forall>v<W. get x [b, k, h, v] = 1"
    for b h v
    using f [OF that(1,2,3)] ones that(1,2,3) by simp
  from fw c(2) f g show ?thesis by blast
qed

theorem plain_cam_closed_form_witness:
  "\<exists>cams. ResNetCam_forward ''multi_class'' cam_weight_example cam_bias_example
             ones_feature_example (LIndex [1]) True = Inr (Cams cams)
          \<and> shape cams = [1, 1, 2]
          \<and> get cams [0, 0, 0] = 4 \<and> get cams [0, 0, 1] = 4"
proof -
  have x: "shape ones_feature_example = [1, 2, 1, 2]"
    by (simp add: ones_feature_example_def)
  have w: "shape cam_weight_example = [2, 2]" by (simp add: cam_weight_example_def)
  have b: "shape cam_bias_example = [2]" by (simp add: cam_bias_example_def)
  have len: "length [1::int] = 1" by simp
  have rng: "\<forall>l \<in> set [1::int]. - int 2 \<le> l \<and> l < int 2" by simp
  have ones: "\<forall>b<1::nat. \<forall>k<2::nat. \<forall>h<1::nat. \<forall>v<2::nat.
      get ones_feature_example [b, k, h, v] = 1"
    by (auto simp: get_def ones_feature_example_def less_Suc_eq numeral_2_eq_2)
  have row: "(\<Sum>k<2::nat. get cam_weight_example [nat ([1::int] ! 0 mod int 2), k]) / of_nat 2 = 4"
    by (simp add: get_def cam_weight_example_def numeral_2_eq_2)
  obtain cams where c:
    "ResNetCam_forward ''multi_class'' cam_weight_example cam_bias_example
        ones_feature_example (LIndex [1]) True = Inr (Cams cams)"
    "shape cams = [1, 1, 2]"
    "\<forall>b<1::nat. \<forall>h<1::nat. \<forall>v<2::nat.
       get cams [b, h, v]
         = (\<Sum>k<2::nat. get cam_weight_example [nat ([1::int] ! b mod int 2), k]) / of_nat 2"
    using plain_cam_closed_form [OF x _ _ _ _ w b len rng] ones by auto
  have "get cams [0, 0, 0] = 4" and "get cams [0, 0, 1] = 4"
    using c(3) row by auto
  with c(1,2) show ?thesis by blast
qed

section \<open>The class activation map without labels\<close>

text \<open>
  With \<open>labels = None\<close> the call does not always fail: for two classes and a batch of
  two samples \<open>fc.weight[None]\<close> has as many entries as the view needs, and \<open>forward\<close>
  returns a map, in which sample \<open>b\<close> is weighted by row \<open>b\<close> of the classifier.
\<close>

theorem cam_without_labels_counterexample:
  "ResNetCam_forward ''multi_class'' cam_weight_example cam_bias_example
       two_sample_feature_example LNone True
     = Inr (Cams \<lparr>shape = [2, 1, 1], data = [3 / 2, 40]\<rparr>)
   \<and> ResNetAdl_forward cam_weight_example cam_bias_example two_sample_feature_example LNone True
     = Inr (Cams \<lparr>shape = [2, 1, 1], data = [3 / 2, 40]\<rparr>)"
  by code_simp

lemma cam_none_lemma:
  fixes x :: "('a::field) tensor"
  assumes x: "shape x = [B, C, H, W]" and pos: "0 < B" "0 < C" "0 < H" "0 < W"
    and w: "shape fc_weight = [n, C]" and bias: "shape fc_bias = [n]"
  shows "(B \<noteq> n \<longrightarrow>
            ResNetCam_forward ''multi_class'' fc_weight fc_bias x LNone True = Inl RuntimeError)
         \<and> (B = n \<longrightarrow>
              (\<exists>cams.
                 ResNetCam_forward ''multi_class'' fc_weight fc_bias x LNone True = Inr (Cams cams)
                 \<and> shape cams = [B, H, W]
                 \<and> (\<forall>b<B. \<forall>h<H. \<forall>v<W.
                       get cams [b, h, v]
                         = (\<Sum>k<C. get fc_weight [b, k] * get x [b, k, h, v]) / of_nat C)))"
proof -
  obtain lg where lg: "fc_logits fc_weight fc_bias x = Inr lg"
    using fc_logits_ok [OF x pos w bias] by blast
  define cw where "cw = index_none fc_weight"
  have il: "index_labels fc_weight LNone = Inr cw"
    by (simp add: index_labels_def cw_def)
  have scw: "shape cw = [1, n, C]" by (simp add: cw_def index_none_def w)
  have dcw: "data cw = data fc_weight" by (simp add: cw_def index_none_def)
  have fail: "ResNetCam_forward ''multi_class'' fc_weight fc_bias x LNone True = Inl RuntimeError"
    if ne: "B \<noteq> n"
  proof -
    have "numel (map nat [int B, int C, 1, 1]) \<noteq> numel (shape cw)"
      using ne pos(2) by (simp add: scw)
    then have "infer_shape (numel (shape cw)) [int B, int C, 1, 1] = Inl RuntimeError"
      by (intro infer_shape_mismatch) simp_all
    then have "view cw (map int (take 2 (shape x)) @ [1, 1]) = Inl RuntimeError"
      by (simp add: view_def x)
    then show ?thesis
      by (simp add: ResNetCam_forward_def lg il)
  qed
  have ok: "\<exists>cams.
       ResNetCam_forward ''multi_class'' fc_weight fc_bias x LNone True = Inr (Cams cams)
       \<and> shape cams = [B, H, W]
       \<and> (\<forall>b<B. \<forall>h<H. \<forall>v<W.
             get cams [b, h, v]
               = (\<Sum>k<C. get fc_weight [b, k] * get x [b, k, h, v]) / of_nat C)"
    if eq: "B = n"
  proof -
    have ncw: "numel (shape cw) = B * C" by (simp add: scw eq)
    obtain cams where c:
      "ebind (view cw (map int (take 2 (shape x)) @ [1, 1])) (\<lambda>v.
         ebind (bmul v x) (\<lambda>p.
         ebind (mean_dim 1 p) (\<lambda>cams. Inr (Cams cams))))
         = (Inr (Cams cams) :: error + ('a, 'a tensor) fwd_result)"
      "shape cams = [B, H, W]"
      "\<forall>b<B. \<forall>h<H. \<forall>v<W.
          get cams [b, h, v] = (\<Sum>k<C. data cw ! (b * C + k) * get x [b, k, h, v]) / of_nat C"
      using cam_chain [OF x ncw] by blast
    have fw: "ResNetCam_forward ''multi_class'' fc_weight fc_bias x LNone True = Inr (Cams cams)"
      using c(1) by (simp add: ResNetCam_forward_def lg il)
    have row: "data cw ! (b * C + k) = get fc_weight [b, k]" for b k
      by (simp add: get_def dcw w)
    from fw c(2) c(3) show ?thesis by (auto simp: row)
  qed
  from fail ok show ?thesis by blast
qed

text \<open>
  Claim C10, amended.  \<open>ResNetCam\<close> (multi-class) and \<open>ResNetAdl\<close> do no argmax
  defaulting: with \<open>labels = None\<close> and \<open>return_cam\<close> both behave alike, the call
  raises whenever the batch size differs from the number of classes, and when the
  two are equal it returns the map in which sample \<open>b\<close> is weighted by classifier
  row \<open>b\<close>, whatever the logits are.
\<close>

theorem cam_without_labels:
  fixes x :: "('a::field) tensor"
  assumes x: "shape x = [B, C, H, W]" and pos: "0 < B" "0 < C" "0 < H" "0 < W"
    and w: "shape fc_weight = [n, C]" and bias: "shape fc_bias = [n]"
  shows "ResNetAdl_forward fc_weight fc_bias x LNone True
           = ResNetCam_forward ''multi_class'' fc_weight fc_bias x LNone True
         \<and> (B \<noteq> n \<longrightarrow>
              ResNetCam_forward ''multi_class'' fc_weight fc_bias x LNone True = Inl RuntimeError)
         \<and> (B = n \<longrightarrow>
              (\<exists>cams.
                 ResNetCam_forward ''multi_class'' fc_weight fc_bias x LNone True = Inr (Cams cams)
                 \<and> shape cams = [B, H, W]
                 \<and> (\<forall>b<B. \<forall>h<H. \<forall>v<W.
                       get cams [b, h, v]
                         = (\<Sum>k<C. get fc_weight [b, k] * get x [b, k, h, v]) / of_nat C)))"
proof -
  have "ResNetAdl_forward fc_weight fc_bias x LNone True
           = ResNetCam_forward ''multi_class'' fc_weight fc_bias x LNone True"
    by (simp add: ResNetAdl_forward_def ResNetCam_forward_def)
  then show ?thesis
    using cam_none_lemma [OF x pos w bias] by blast
qed

theorem cam_without_labels_witness:
  "ResNetCam_forward ''multi_class'' cam_weight_example cam_bias_example
       ones_feature_example LNone True = Inl RuntimeError
   \<and> ResNetAdl_forward cam_weight_example cam_bias_example
       ones_feature_example LNone True = Inl RuntimeError
   \<and> (\<exists>cams. ResNetCam_forward ''multi_class'' cam_weight_example cam_bias_example
                two_sample_feature_example LNone True = Inr (Cams cams)
             \<and> shape cams = [2, 1, 1]
             \<and> get cams [0, 0, 0] = 3 / 2 \<and> get cams [1, 0, 0] = 40)"
proof -
  have x1: "shape ones_feature_example = [1, 2, 1, 2]"
    by (simp add: ones_feature_example_def)
  have x2: "shape two_sample_feature_example = [2, 2, 1, 1]"
    by (simp add: two_sample_feature_example_def)
  have w: "shape cam_weight_example = [2, 2]" by (simp add: cam_weight_example_def)
  have b: "shape cam_bias_example = [2]" by (simp add: cam_bias_example_def)
  have a: "ResNetCam_forward ''multi_class'' cam_weight_example cam_bias_example
       ones_feature_example LNone True = Inl RuntimeError
     \<and> ResNetAdl_forward cam_weight_example cam_bias_example
       ones_feature_example LNone True = Inl RuntimeError"
    using cam_without_labels [OF x1 _ _ _ _ w b] by simp
  obtain cams where c:
    "ResNetCam_forward ''multi_class'' cam_weight_example cam_bias_example
        two_sample_feature_example LNone True = Inr (Cams cams)"
    "shape cams = [2, 1, 1]"
    "\<forall>b<2::nat. \<forall>h<1::nat. \<forall>v<1::nat.
       get cams [b, h, v]
         = (\<Sum>k<2::nat. get cam_weight_example [b, k] * get two_sample_feature_example [b, k, h, v])
             / of_nat 2"
    using cam_without_labels [OF x2 _ _ _ _ w b] by auto
  have r0: "(\<Sum>k<2::nat. get cam_weight_example [0, k] * get two_sample_feature_example [0, k, 0, 0])
             / of_nat 2 = 3 / 2"
    by (simp add: get_def cam_weight_example_def two_sample_feature_example_def numeral_2_eq_2)
  have r1: "(\<Sum>k<2::nat. get cam_weight_example [1, k] * get two_sample_feature_example [1, k, 0, 0])
             / of_nat 2 = 40"
    by (simp add: get_def cam_weight_example_def two_sample_feature_example_def numeral_2_eq_2)
  have "get cams [0, 0, 0] = 3 / 2"
    using c(3) [rule_format, of 0 0 0] r0 by simp
  moreover have "get cams [1, 0, 0] = 40"
    using c(3) [rule_format, of 1 0 0] r1 by simp
  ultimately show ?thesis using a c(1,2) by blast
qed

section \<open>Selecting the label channel\<close>

lemma norm_indices_range: "norm_indices B (map int [0..<B]) = Inr [0..<B]"
proof -
  have "\<forall>l \<in> set (map int [0..<B]). - int B \<le> l \<and> l < int B" by auto
  from norm_indices_ok [OF this] obtain ks where
    ks: "norm_indices B (map int [0..<B]) = Inr ks" "length ks = B"
      "\<forall>i < B. ks ! i = nat (map int [0..<B] ! i mod int B)" by auto
  have "ks = [0..<B]"
  proof (rule nth_equalityI)
    show "length ks = length [0..<B]" using ks(2) by simp
  next
    fix i assume "i < length ks"
    then have i: "i < B" using ks(2) by simp
    then have "ks ! i = nat (int i mod int B)" using ks(3) by simp
    also have "\<dots> = i" using i by simp
    finally show "ks ! i = [0..<B] ! i" using i by simp
  qed
  with ks(1) show ?thesis by simp
qed

lemma index_batch_labels_ok:
  assumes t: "shape t = B # n # rest" and len: "length ls = B"
    and rng: "\<forall>l \<in> set ls. - int n \<le> l \<and> l < int n"
  shows "\<exists>c. index_batch_labels t B (LIndex ls) = Inr c \<and> shape c = B # rest
           \<and> (\<forall>b<B. \<forall>idx. valid_index rest idx \<longrightarrow>
                 get c (b # idx) = get t (b # nat (ls ! b mod int n) # idx))"
proof -
  obtain ks where ks: "norm_indices n ls = Inr ks" "length ks = length ls"
    "\<forall>i < length ls. ks ! i = nat (ls ! i mod int n)"
    using norm_indices_ok [OF rng] by blast
  define c where "c = tabulate (B # rest)
     (\<lambda>idx. get t (pick [0..<B] (hd idx) # pick ks (hd idx) # tl idx))"
  have bd: "broadcast_dims [length [0..<B]] [length ks] = Inr [B]"
    using ks(2) len by simp
  have 1: "index_batch_labels t B (LIndex ls) = Inr c"
    unfolding index_batch_labels_def
    by (simp add: t norm_indices_range ks(1) ks(2) len c_def)
  have e: "get c (b # idx) = get t (b # nat (ls ! b mod int n) # idx)"
    if b: "b < B" and v: "valid_index rest idx" for b idx
  proof -
    have "get c (b # idx) = get t (pick [0..<B] b # pick ks b # idx)"
      unfolding c_def using b v by (simp add: get_tabulate)
    moreover have "pick [0..<B] b = b" using b by (auto simp: pick_def)
    moreover have "pick ks b = ks ! b" using b ks(2) len by (auto simp: pick_def)
    ultimately show ?thesis using ks(3) b len by simp
  qed
  have "shape c = B # rest" by (simp add: c_def)
  with 1 e show ?thesis by blast
qed

lemma mod_label_less:
  assumes "- int n \<le> l" "l < int n"
  shows "nat (l mod int n) < n"
proof -
  have "0 < int n" using assms by linarith
  then have "0 \<le> l mod int n" "l mod int n < int n" by simp_all
  then show ?thesis by linarith
qed

section \<open>The ACoL class activation map\<close>

text \<open>
  Claim C3.  With \<open>return_cam\<close>, \<open>ResNetAcol.forward\<close> normalises the feature map of
  each branch on its own, takes the elementwise maximum of the two normalised
  maps, and returns for sample \<open>b\<close> the channel \<open>labels[b]\<close> of that maximum: the
  normalisation comes before the maximum.  \<open>normalize_tensor\<close> is the function
  imported by \<open>resnet.py\<close>, here any function.
\<close>

theorem acol_fused_cam:
  fixes feature :: "('a::linorder) tensor"
  assumes d: "acol_logits_fn feature (LIndex ls) drop_threshold = Inr d"
    and na: "normalize_tensor (feat_map_a d) = Inr na"
    and nb: "normalize_tensor (feat_map_b d) = Inr nb"
    and sa: "shape na = [B, n, H, W]" and sb: "shape nb = [B, n, H, W]"
    and len: "length ls = B" and rng: "\<forall>l \<in> set ls. - int n \<le> l \<and> l < int n"
  shows "\<exists>cams.
           ResNetAcol_forward acol_logits_fn normalize_tensor drop_threshold B feature
               (LIndex ls) True = Inr (Cams cams)
           \<and> shape cams = [B, H, W]
           \<and> (\<forall>b<B. \<forall>h<H. \<forall>v<W.
                 get cams [b, h, v]
                   = max (get na [b, nat (ls ! b mod int n), h, v])
                         (get nb [b, nat (ls ! b mod int n), h, v]))"
proof -
  define fm where "fm = tabulate [B, n, H, W] (\<lambda>idx. max (bget na idx) (bget nb idx))"
  have 1: "bmax na nb = Inr fm"
    by (simp add: bmax_def broadcast_shape_def pad_shape_def sa sb broadcast_same fm_def)
  have sfm: "shape fm = B # n # [H, W]" by (simp add: fm_def)
  obtain cams where c: "index_batch_labels fm B (LIndex ls) = Inr cams"
    "shape cams = B # [H, W]"
    "\<forall>b<B. \<forall>idx. valid_index [H, W] idx \<longrightarrow>
        get cams (b # idx) = get fm (b # nat (ls ! b mod int n) # idx)"
    using index_batch_labels_ok [OF sfm len rng] by blast
  have fw: "ResNetAcol_forward acol_logits_fn normalize_tensor drop_threshold B feature
               (LIndex ls) True = Inr (Cams cams)"
    by (simp add: ResNetAcol_forward_def d na nb 1 c(1))
  have e: "get cams [b, h, v]
             = max (get na [b, nat (ls ! b mod int n), h, v])
                   (get nb [b, nat (ls ! b mod int n), h, v])"
    if b: "b < B" and h: "h < H" and v: "v < W" for b h v
  proof -
    have "ls ! b \<in> set ls" using b len by simp
    then have l: "nat (ls ! b mod int n) < n" using rng mod_label_less by blast
    have val: "valid_index [B, n, H, W] [b, nat (ls ! b mod int n), h, v]"
      using b l h v by simp
    have "get cams [b, h, v] = get fm [b, nat (ls ! b mod int n), h, v]"
      using c(3) b h v by simp
    also have "\<dots> = max (bget na [b, nat (ls ! b mod int n), h, v])
                         (bget nb [b, nat (ls ! b mod int n), h, v])"
      unfolding fm_def using val by (rule get_tabulate)
    finally show ?thesis using val by (simp add: bget_valid sa sb)
  qed
  from fw c(2) e show ?thesis by auto
qed

section \<open>The SPG class activation map\<close>

text \<open>
  Claim C9.  With \<open>return_cam\<close>, \<open>ResNetSpg.forward\<close> returns a tensor of shape
  \<open>(B, H, W)\<close> whose slice for sample \<open>b\<close> is channel \<open>labels[b]\<close> of the output of
  \<open>SPG_A4\<close>, entry by entry: nothing is normalised, and the attention maps that
  \<open>compute_attention\<close> returns do not enter the result.
\<close>

theorem spg_cam_is_raw_slice:
  fixes feat_map :: "('a::linordered_field) tensor"
  assumes fm: "shape feat_map = [B, n, H, W]" and pos: "0 < n" "0 < H" "0 < W"
    and ca: "compute_attention feat_map (LIndex ls) lb1 lb2 = Inr (att, fused)"
    and len: "length ls = B" and rng: "\<forall>l \<in> set ls. - int n \<le> l \<and> l < int n"
  shows "\<exists>cams.
           ResNetSpg_forward compute_attention B feat_map lb1 lb2 lc (LIndex ls) True
             = Inr (Cams cams)
           \<and> shape cams = [B, H, W]
           \<and> (\<forall>b<B. \<forall>h<H. \<forall>v<W.
                 get cams [b, h, v] = get feat_map [b, nat (ls ! b mod int n), h, v])"
proof -
  obtain p where p: "avgpool feat_map = Inr p" "shape p = [B, n, 1, 1]"
    using avgpool_ok [OF fm pos] by blast
  have "infer_shape (numel (shape p)) [int B, int n] = Inr (map nat [int B, int n])"
    by (rule infer_shape_plain) (simp_all add: p(2))
  then have v: "view p (map int (take 2 (shape p))) = Inr (p\<lparr>shape := [B, n]\<rparr>)"
    by (simp add: view_def p(2))
  have sfm: "shape feat_map = B # n # [H, W]" using fm by simp
  obtain cams where c: "index_batch_labels feat_map B (LIndex ls) = Inr cams"
    "shape cams = B # [H, W]"
    "\<forall>b<B. \<forall>idx. valid_index [H, W] idx \<longrightarrow>
        get cams (b # idx) = get feat_map (b # nat (ls ! b mod int n) # idx)"
    using index_batch_labels_ok [OF sfm len rng] by blast
  have fw: "ResNetSpg_forward compute_attention B feat_map lb1 lb2 lc (LIndex ls) True
             = Inr (Cams cams)"
    by (simp add: ResNetSpg_forward_def p(1) v spg_labels_def ca c(1))
  have e: "get cams [b, h, v] = get feat_map [b, nat (ls ! b mod int n), h, v]"
    if "b < B" "h < H" "v < W" for b h v
    using c(3) that by simp
  from fw c(2) e show ?thesis by auto
qed




section \<open>The ADL class activation map\<close>

text \<open>
  Claim C5.  \<open>ResNetAdl.forward\<close> computes its class activation map from the last
  feature map with the formula of the multi-class branch of \<open>ResNetCam.forward\<close>:
  the classifier row of \<open>labels[b]\<close> is multiplied channel by channel with the
  feature map of sample \<open>b\<close> and averaged over the channels, and on equal feature
  maps, classifier weights and labels the two calls return the same tensor.
\<close>

theorem adl_cam_closed_form:
  fixes x :: "('a::field) tensor"
  assumes x: "shape x = [B, C, H, W]" and pos: "0 < B" "0 < C" "0 < H" "0 < W"
    and w: "shape fc_weight = [n, C]" and bias: "shape fc_bias = [n]"
    and len: "length ls = B" and rng: "\<forall>l \<in> set ls. - int n \<le> l \<and> l < int n"
  shows "\<exists>cams.
           ResNetAdl_forward fc_weight fc_bias x (LIndex ls) True = Inr (Cams cams)
           \<and> ResNetCam_forward ''multi_class'' fc_weight fc_bias x (LIndex ls) True
               = Inr (Cams cams)
           \<and> shape cams = [B, H, W]
           \<and> (\<forall>b<B. \<forall>h<H. \<forall>v<W.
                 get cams [b, h, v]
                   = (\<Sum>k<C. get fc_weight [nat (ls ! b mod int n), k] * get x [b, k, h, v])
                       / of_nat C)"
proof -
  obtain lg where lg: "fc_logits fc_weight fc_bias x = Inr lg"
    using fc_logits_ok [OF x pos w bias] by blast
  obtain ks where ks: "norm_indices n ls = Inr ks" "length ks = length ls"
    "\<forall>i < length ls. ks ! i = nat (ls ! i mod int n)"
    using norm_indices_ok [OF rng] by blast
  define cw where "cw = tabulate [B, C] (\<lambda>idx. get fc_weight ((ks ! hd idx) # tl idx))"
  have il: "index_labels fc_weight (LIndex ls) = Inr cw"
    by (simp add: index_labels_def index_rows_def w ks(1) ks(2) len cw_def)
  have ncw: "numel (shape cw) = B * C" by (simp add: cw_def)
  obtain cams where c:
    "ebind (view cw (map int (take 2 (shape x)) @ [1, 1])) (\<lambda>v.
       ebind (bmul v x) (\<lambda>p.
       ebind (mean_dim 1 p) (\<lambda>cams. Inr (Cams cams))))
       = (Inr (Cams cams) :: error + ('a, 'a tensor) fwd_result)"
    "shape cams = [B, H, W]"
    "\<forall>b<B. \<forall>h<H. \<forall>v<W.
        get cams [b, h, v] = (\<Sum>k<C. data cw ! (b * C + k) * get x [b, k, h, v]) / of_nat C"
    using cam_chain [OF x ncw] by blast
  have adl: "ResNetAdl_forward fc_weight fc_bias x (LIndex ls) True = Inr (Cams cams)"
    using c(1) by (simp add: ResNetAdl_forward_def lg il)
  have cam: "ResNetCam_forward ''multi_class'' fc_weight fc_bias x (LIndex ls) True
      = Inr (Cams cams)"
    using c(1) by (simp add: ResNetCam_forward_def lg il)
  have row: "data cw ! (b * C + k) = get fc_weight [nat (ls ! b mod int n), k]"
    if "b < B" "k < C" for b k
  proof -
    have "data cw ! (b * C + k) = get cw [b, k]" by (simp add: get_def cw_def)
    also have "\<dots> = get fc_weight [ks ! b, k]"
      unfolding cw_def using that by (simp add: get_tabulate)
    finally show ?thesis using ks(3) that(1) len by simp
  qed
  have f: "get cams [b, h, v]
             = (\<Sum>k<C. get fc_weight [nat (ls ! b mod int n), k] * get x [b, k, h, v]) / of_nat C"
    if "b < B" "h < H" "v < W" for b h v
    using c(3) that row by simp
  from adl cam c(2) f show ?thesis by blast
qed

theorem adl_cam_closed_form_witness:
  "\<exists>cams. ResNetAdl_forward cam_weight_example cam_bias_example
             two_sample_feature_example (LIndex [1, 0]) True = Inr (Cams cams)
          \<and> ResNetCam_forward ''multi_class'' cam_weight_example cam_bias_example
             two_sample_feature_example (LIndex [1, 0]) True = Inr (Cams cams)
          \<and> shape cams = [2, 1, 1]
          \<and> get cams [0, 0, 0] = 4 \<and> get cams [1, 0, 0] = 15"
proof -
  have x: "shape two_sample_feature_example = [2, 2, 1, 1]"
    by (simp add: two_sample_feature_example_def)
  have w: "shape cam_weight_example = [2, 2]" by (simp add: cam_weight_example_def)
  have b: "shape cam_bias_example = [2]" by (simp add: cam_bias_example_def)
  have len: "length [1::int, 0] = 2" by simp
  have rng: "\<forall>l \<in> set [1::int, 0]. - int 2 \<le> l \<and> l < int 2" by simp
  obtain cams where c:
    "ResNetAdl_forward cam_weight_example cam_bias_example
        two_sample_feature_example (LIndex [1, 0]) True = Inr (Cams cams)"
    "ResNetCam_forward ''multi_class'' cam_weight_example cam_bias_example
        two_sample_feature_example (LIndex [1, 0]) True = Inr (Cams cams)"
    "shape cams = [2, 1, 1]"
    "\<forall>b<2::nat. \<forall>h<1::nat. \<forall>v<1::nat.
       get cams [b, h, v]
         = (\<Sum>k<2::nat. get cam_weight_example [nat ([1::int, 0] ! b mod int 2), k]
                          * get two_sample_feature_example [b, k, h, v]) / of_nat 2"
    using adl_cam_closed_form [OF x _ _ _ _ w b len rng] by auto
  have r0: "(\<Sum>k<2::nat. get cam_weight_example [nat ([1::int, 0] ! 0 mod int 2), k]
                          * get two_sample_feature_example [0, k, 0, 0]) / of_nat 2 = 4"
    by (simp add: get_def cam_weight_example_def two_sample_feature_example_def numeral_2_eq_2)
  have r1: "(\<Sum>k<2::nat. get cam_weight_example [nat ([1::int, 0] ! 1 mod int 2), k]
                          * get two_sample_feature_example [1, k, 0, 0]) / of_nat 2 = 15"
    by (simp add: get_def cam_weight_example_def two_sample_feature_example_def numeral_2_eq_2)
  have "get cams [0, 0, 0] = 4"
    using c(4) [rule_format, of 0 0 0] r0 by simp
  moreover have "get cams [1, 0, 0] = 15"
    using c(4) [rule_format, of 1 0 0] r1 by simp
  ultimately show ?thesis using c(1,2,3) by blast
qed


theorem acol_fused_cam_witness:
  "\<exists>cams. ResNetAcol_forward acol_logits_example minmax_normalize (1 / 2) 1 branch_a_example
             (LIndex [1]) True = Inr (Cams cams)
          \<and> shape cams = [1, 1, 2]
          \<and> get cams [0, 0, 0] = 1 / 2 \<and> get cams [0, 0, 1] = 1"
proof -
  define na :: "rat tensor" where "na = \<lparr>shape = [1, 2, 1, 2], data = [0, 1 / 4, 1 / 2, 1]\<rparr>"
  define nb :: "rat tensor" where "nb = \<lparr>shape = [1, 2, 1, 2], data = [1, 0, 1 / 4, 3 / 4]\<rparr>"
  define d where "d = \<lparr>acol_logits = branch_a_example, feat_map_a = branch_a_example,
     feat_map_b = branch_b_example\<rparr>"
  have d: "acol_logits_example branch_a_example (LIndex [1]) (1 / 2) = Inr d"
    by (simp add: acol_logits_example_def d_def)
  have a0: "minmax_normalize branch_a_example
      = Inr \<lparr>shape = [1, 2, 1, 2], data = [0, 1 / 4, 1 / 2, 1]\<rparr>"
    by code_simp
  have b0: "minmax_normalize branch_b_example
      = Inr \<lparr>shape = [1, 2, 1, 2], data = [1, 0, 1 / 4, 3 / 4]\<rparr>"
    by code_simp
  have a: "minmax_normalize (feat_map_a d) = Inr na" using a0 by (simp add: d_def na_def)
  have b: "minmax_normalize (feat_map_b d) = Inr nb" using b0 by (simp add: d_def nb_def)
  have sa: "shape na = [1, 2, 1, 2]" by (simp add: na_def)
  have sb: "shape nb = [1, 2, 1, 2]" by (simp add: nb_def)
  have len: "length [1::int] = 1" by simp
  have rng: "\<forall>l \<in> set [1::int]. - int 2 \<le> l \<and> l < int 2" by simp
  obtain cams where c:
    "ResNetAcol_forward acol_logits_example minmax_normalize (1 / 2) 1 branch_a_example
        (LIndex [1]) True = Inr (Cams cams)"
    "shape cams = [1, 1, 2]"
    "\<forall>b<1::nat. \<forall>h<1::nat. \<forall>v<2::nat.
       get cams [b, h, v]
         = max (get na [b, nat ([1::int] ! b mod int 2), h, v])
               (get nb [b, nat ([1::int] ! b mod int 2), h, v])"
    using acol_fused_cam [where acol_logits_fn = acol_logits_example
        and normalize_tensor = minmax_normalize, OF d a b sa sb len rng] by auto
  have r0: "max (get na [0, nat ([1::int] ! 0 mod int 2), 0, 0])
                (get nb [0, nat ([1::int] ! 0 mod int 2), 0, 0]) = 1 / 2"
    by (simp add: get_def na_def nb_def)
  have r1: "max (get na [0, nat ([1::int] ! 0 mod int 2), 0, 1])
                (get nb [0, nat ([1::int] ! 0 mod int 2), 0, 1]) = 1"
    by (simp add: get_def na_def nb_def)
  have "get cams [0, 0, 0] = 1 / 2"
    using c(3) [rule_format, of 0 0 0] r0 by simp
  moreover have "get cams [0, 0, 1] = 1"
    using c(3) [rule_format, of 0 0 1] r1 by simp
  ultimately show ?thesis using c(1,2) by blast
qed

theorem spg_cam_is_raw_slice_witness:
  "\<exists>cams. ResNetSpg_forward attention_example 1 spg_feat_example branch_a_example
             branch_b_example branch_b_example (LIndex [0]) True = Inr (Cams cams)
          \<and> shape cams = [1, 1, 2]
          \<and> get cams [0, 0, 0] = 1 \<and> get cams [0, 0, 1] = 2"
proof -
  have fm: "shape spg_feat_example = [1, 2, 1, 2]" by (simp add: spg_feat_example_def)
  have ca: "attention_example spg_feat_example (LIndex [0]) branch_a_example branch_b_example
      = Inr (branch_a_example, branch_b_example)"
    by (simp add: attention_example_def)
  have len: "length [0::int] = 1" by simp
  have rng: "\<forall>l \<in> set [0::int]. - int 2 \<le> l \<and> l < int 2" by simp
  obtain cams where c:
    "ResNetSpg_forward attention_example 1 spg_feat_example branch_a_example
        branch_b_example branch_b_example (LIndex [0]) True = Inr (Cams cams)"
    "shape cams = [1, 1, 2]"
    "\<forall>b<1::nat. \<forall>h<1::nat. \<forall>v<2::nat.
       get cams [b, h, v] = get spg_feat_example [b, nat ([0::int] ! b mod int 2), h, v]"
    using spg_cam_is_raw_slice [where compute_attention = attention_example
        and lc = branch_b_example, OF fm _ _ _ ca len rng] by auto
  have r0: "get spg_feat_example [0, nat ([0::int] ! 0 mod int 2), 0, 0] = 1"
    by (simp add: get_def spg_feat_example_def)
  have r1: "get spg_feat_example [0, nat ([0::int] ! 0 mod int 2), 0, 1] = 2"
    by (simp add: get_def spg_feat_example_def)
  have "get cams [0, 0, 0] = 1"
    using c(3) [rule_format, of 0 0 0] r0 by simp
  moreover have "get cams [0, 0, 1] = 2"
    using c(3) [rule_format, of 0 0 1] r1 by simp
  ultimately show ?thesis using c(1,2) by blast
qed

section \<open>SPG labels itself when no label is given\<close>






section \<open>The multi-label class activation map\<close>

text \<open>
  Claim C2.  For a label matrix of shape \<open>(B, num_classes)\<close> the multi-label branch
  should return, at \<open>[b][j]\<close>, the channel mean of the feature map of sample \<open>b\<close>
  weighted by classifier row \<open>j\<close> when \<open>labels[b][j] = 1\<close>.  The code does not for a
  batch of two: with all labels set, the first sample all ones and the second all
  tens, it returns 40 at \<open>[0][1]\<close> and 3/2 at \<open>[1][0]\<close>, where the weighted channel
  means of the sample's own feature map are 4 and 15.  The two \<open>view\<close> calls
  reinterpret a \<open>(B, num_classes)\<close> layout as \<open>(num_classes, B)\<close> and back, so
  position \<open>[b][j]\<close> is computed from the feature map of sample
  \<open>(b * num_classes + j) mod B\<close>.
\<close>

theorem multi_label_cam_mixes_samples:
  "ResNetCam_forward ''multi_label'' cam_weight_example cam_bias_example
       two_sample_feature_example (LMask all_labels_example) True
     = Inr (Cams \<lparr>shape = [2, 2, 1, 1], data = [3 / 2, 40, 3 / 2, 40]\<rparr>)
   \<and> (\<Sum>k<2. get cam_weight_example [1, k] * get two_sample_feature_example [0, k, 0, 0]) / 2 = 4
   \<and> (\<Sum>k<2. get cam_weight_example [0, k] * get two_sample_feature_example [1, k, 0, 0]) / 2 = 15"
proof -
  have "ResNetCam_forward ''multi_label'' cam_weight_example cam_bias_example
       two_sample_feature_example (LMask all_labels_example) True
     = Inr (Cams \<lparr>shape = [2, 2, 1, 1], data = [3 / 2, 40, 3 / 2, 40]\<rparr>)"
    by code_simp
  moreover have "(\<Sum>k<2. get cam_weight_example [1, k] * get two_sample_feature_example [0, k, 0, 0]) / 2 = 4"
    by (simp add: get_def cam_weight_example_def two_sample_feature_example_def numeral_2_eq_2)
  moreover have "(\<Sum>k<2. get cam_weight_example [0, k] * get two_sample_feature_example [1, k, 0, 0]) / 2 = 15"
    by (simp add: get_def cam_weight_example_def two_sample_feature_example_def numeral_2_eq_2)
  ultimately show ?thesis by blast
qed

section \<open>Remapping checkpoint keys for ADL\<close>

text \<open>
  As stated for every key of the form \<open>layerL.B.\<close>, the remapping fails on block
  indices of two digits: the keys are visited in reverse string order, in which
  \<open>layer3.9.w\<close> comes before \<open>layer3.10.w\<close>, so the entry moved from block 9 to block
  10 overwrites the entry of block 10 and is then moved on to block 11.
\<close>

theorem align_layer_counterexample:
  "align_layer [(''layer3.9.w'', 9 :: int), (''layer3.10.w'', 10)] = Inr [(''layer3.11.w'', 9)]"
  by code_simp

lemma digit_char_cases:
  "n < 10 \<Longrightarrow> n = 0 \<or> n = 1 \<or> n = 2 \<or> n = 3 \<or> n = 4 \<or> n = 5 \<or> n = 6 \<or> n = 7 \<or> n = 8 \<or> n = (9::nat)"
  by arith

lemma of_char_digit: "n < 10 \<Longrightarrow> (of_char (digit_char n) :: nat) = 48 + n"
  by (simp add: digit_char_def)

lemma is_digit_digit_char: "n < 10 \<Longrightarrow> is_digit (digit_char n)"
  by (simp add: is_digit_def of_char_digit)

lemma digit_val_digit_char: "n < 10 \<Longrightarrow> digit_val (digit_char n) = n"
  by (simp add: digit_val_def of_char_digit)

lemma digit_char_not_special:
  assumes "n < 10"
  shows "digit_char n \<noteq> CHR ''.''" "digit_char n \<noteq> CHR ''-''" "digit_char n \<noteq> CHR ''+''"
    "digit_char n \<noteq> CHR ''_''" "\<not> is_space (digit_char n)"
proof -
  have o: "(of_char (digit_char n) :: nat) = 48 + n" using assms by (rule of_char_digit)
  show "digit_char n \<noteq> CHR ''.''" using o by auto
  show "digit_char n \<noteq> CHR ''-''" using o by auto
  show "digit_char n \<noteq> CHR ''+''" using o by auto
  show "digit_char n \<noteq> CHR ''_''" using o assms by auto
  show "\<not> is_space (digit_char n)" using o assms by (simp add: is_space_def Let_def)
qed

lemma py_int_digit: "n < 10 \<Longrightarrow> py_int [digit_char n] = Inr (int n)"
  by (simp add: py_int_def strip_def digit_char_not_special is_digit_digit_char
      digits_value_def digit_val_digit_char)


lemma digit_char_val:
  assumes "is_digit c"
  shows "digit_char (digit_val c) = c" and "digit_val c < 10"
proof -
  have r: "48 \<le> (of_char c :: nat)" "(of_char c :: nat) \<le> 57"
    using assms by (simp_all add: is_digit_def)
  then have "48 + ((of_char c :: nat) - 48) = of_char c" by simp
  then show "digit_char (digit_val c) = c" by (simp add: digit_char_def digit_val_def)
  show "digit_val c < 10" using r by (simp add: digit_val_def)
qed

lemma str_nat_small: "n < 10 \<Longrightarrow> str_nat n = [digit_char n]"
  by (subst str_nat.simps) simp

lemma str_nat_digits: "\<forall>c \<in> set (str_nat n). is_digit c"
proof (induction n rule: str_nat.induct)
  case (1 n)
  show ?case
  proof (cases "n < 10")
    case True
    then show ?thesis by (simp add: str_nat_small is_digit_digit_char)
  next
    case False
    then have "str_nat n = str_nat (n div 10) @ [digit_char (n mod 10)]"
      by (subst str_nat.simps) simp
    moreover have "is_digit (digit_char (n mod 10))" by (simp add: is_digit_digit_char)
    ultimately show ?thesis using 1 False by auto
  qed
qed

lemma str_nat_nonempty: "str_nat n \<noteq> []"
  by (subst str_nat.simps) simp

lemma str_nat_long: "10 \<le> n \<Longrightarrow> 2 \<le> length (str_nat n)"
proof -
  assume "10 \<le> n"
  then have "str_nat n = str_nat (n div 10) @ [digit_char (n mod 10)]"
    by (subst str_nat.simps) simp
  moreover have "1 \<le> length (str_nat (n div 10))"
    using str_nat_nonempty [of "n div 10"] by (cases "str_nat (n div 10)") simp_all
  ultimately show ?thesis by simp
qed

lemma digits_value_snoc:
  "is_digit c \<Longrightarrow> \<forall>d \<in> set s. is_digit d \<Longrightarrow>
     digits_value (s @ [c]) = digits_value s * 10 + digit_val c"
  by (simp add: digits_value_def)

lemma digits_value_str_nat: "digits_value (str_nat n) = n"
proof (induction n rule: str_nat.induct)
  case (1 n)
  show ?case
  proof (cases "n < 10")
    case True
    then show ?thesis
      by (simp add: str_nat_small digits_value_def is_digit_digit_char digit_val_digit_char)
  next
    case False
    then have e: "str_nat n = str_nat (n div 10) @ [digit_char (n mod 10)]"
      by (subst str_nat.simps) simp
    have "digits_value (str_nat n)
        = digits_value (str_nat (n div 10)) * 10 + digit_val (digit_char (n mod 10))"
      unfolding e by (rule digits_value_snoc) (simp_all add: is_digit_digit_char str_nat_digits)
    then show ?thesis using 1 False by (simp add: digit_val_digit_char)
  qed
qed

lemma str_nat_inj: "str_nat a = str_nat b \<Longrightarrow> a = b"
proof -
  assume "str_nat a = str_nat b"
  then have "digits_value (str_nat a) = digits_value (str_nat b)" by simp
  then show "a = b" by (simp only: digits_value_str_nat)
qed

lemma is_digit_not_dot: "is_digit c \<Longrightarrow> c \<noteq> CHR ''.''"
  by (auto simp: is_digit_def)

lemma str_nat_no_dot: "CHR ''.'' \<notin> set (str_nat n)"
  using str_nat_digits [of n] is_digit_not_dot by blast

lemma split_dot_nonempty: "split_dot s \<noteq> []"
  by (induction s) (auto split: list.splits)

lemma split_dot_nodot:
  "CHR ''.'' \<notin> set a \<Longrightarrow> split_dot (a @ CHR ''.'' # b) = a # split_dot b"
  by (induction a) (auto split: list.splits)

lemma join_dot_Cons_char:
  "join_dot ((c # p) # ps) = c # join_dot (p # ps)"
  by (cases ps) simp_all

lemma join_split: "join_dot (split_dot s) = s"
proof (induction s)
  case Nil
  then show ?case by simp
next
  case (Cons c cs)
  obtain p ps where sp: "split_dot cs = p # ps"
    using split_dot_nonempty [of cs] by (cases "split_dot cs") auto
  show ?case
  proof (cases "c = CHR ''.''")
    case True
    then show ?thesis using Cons sp by simp
  next
    case False
    then show ?thesis using Cons sp by (simp add: join_dot_Cons_char)
  qed
qed

lemma dot_split_unique:
  assumes "CHR ''.'' \<notin> set a" "CHR ''.'' \<notin> set b"
    and "a @ CHR ''.'' # r = b @ CHR ''.'' # r'"
  shows "a = b \<and> r = r'"
proof -
  have "split_dot (a @ CHR ''.'' # r) = split_dot (b @ CHR ''.'' # r')"
    using assms(3) by simp
  then have "a # split_dot r = b # split_dot r'"
    by (simp only: split_dot_nodot [OF assms(1)] split_dot_nodot [OF assms(2)])
  then have ab: "a = b" and "split_dot r = split_dot r'" by simp_all
  then have "join_dot (split_dot r) = join_dot (split_dot r')" by simp
  then have "r = r'" by (simp only: join_split)
  with ab show ?thesis by simp
qed

lemma layer_key_inj:
  assumes "layer_key L N rest = layer_key L' N' rest'"
  shows "L = L' \<and> N = N' \<and> rest = rest'"
proof -
  from assms have 1: "str_nat L @ CHR ''.'' # (str_nat N @ CHR ''.'' # rest)
      = str_nat L' @ CHR ''.'' # (str_nat N' @ CHR ''.'' # rest')"
    by (simp add: layer_key_def)
  from dot_split_unique [OF str_nat_no_dot str_nat_no_dot 1]
  have l: "str_nat L = str_nat L'" and 2: "str_nat N @ CHR ''.'' # rest = str_nat N' @ CHR ''.'' # rest'"
    by simp_all
  from dot_split_unique [OF str_nat_no_dot str_nat_no_dot 2]
  have "str_nat N = str_nat N'" and "rest = rest'" by simp_all
  with l show ?thesis using str_nat_inj by blast
qed


lemma sublist_layer_key: "sublist ''layer'' (layer_key L B rest)"
proof -
  have "layer_key L B rest = [] @ ''layer'' @ (str_nat L @ ''.'' @ str_nat B @ ''.'' @ rest)"
    by (simp add: layer_key_def)
  then show ?thesis by (simp only: sublist_appendI)
qed

lemma canonical_layer_key:
  "L < 5 \<Longrightarrow> B < 10 \<Longrightarrow> canonical_key (layer_key L B rest)"
  by (simp add: layer_key_def str_nat_small is_digit_digit_char digit_val_digit_char)

lemma remap_layer_key:
  "L < 5 \<Longrightarrow> B < 10 \<Longrightarrow> remap_key (layer_key L B rest) = layer_key L (B + shift L B) rest"
  by (simp add: layer_key_def str_nat_small is_digit_digit_char digit_val_digit_char)

lemma canonical_key_form:
  assumes "canonical_key k"
  shows "\<exists>L B rest. L < 5 \<and> B < 10 \<and> k = layer_key L B rest"
proof -
  from assms obtain c1 c2 c3 c4 c5 cL d1 cB d2 rest
    where k: "k = c1 # c2 # c3 # c4 # c5 # cL # d1 # cB # d2 # rest"
    by (cases k rule: canonical_key.cases) auto
  from assms k have p: "[c1, c2, c3, c4, c5] = ''layer''" "is_digit cL" "digit_val cL < 5"
    "d1 = CHR ''.''" "is_digit cB" "d2 = CHR ''.''" by simp_all
  have "k = layer_key (digit_val cL) (digit_val cB) rest"
    using k p digit_char_val [OF p(2)] digit_char_val [OF p(5)]
    by (simp add: layer_key_def str_nat_small)
  with p(3) digit_char_val(2) [OF p(5)] show ?thesis by blast
qed

lemma remap_other: "\<not> canonical_key k \<Longrightarrow> remap_key k = k"
  apply (cases k rule: remap_key.cases)
           apply (simp only: remap_key.simps if_False)
          apply simp_all
  done

lemma fold_count:
  "fold (\<lambda>pos move. if pos < B then move + 1 else move) xs (acc :: int)
     = acc + int (length (filter (\<lambda>p. p < B) xs))"
  by (induction xs arbitrary: acc) simp_all

lemma count_move_eq: "count_move ps (int B) = int (length (filter (\<lambda>p. p < B) ps))"
proof -
  have "length (filter (\<lambda>p. p < B) (rev ps)) = length (filter (\<lambda>p. p < B) ps)"
    by (simp add: rev_filter [symmetric])
  then show ?thesis by (simp add: count_move_def fold_count)
qed

lemma align_key_other: "\<not> sublist ''layer'' k \<Longrightarrow> align_key k sd = Inr sd"
  by (simp add: align_key_def)

lemma split_layer_key:
  "split_dot (layer_key L B rest) = (''layer'' @ str_nat L) # str_nat B # split_dot rest"
proof -
  have nd: "CHR ''.'' \<notin> set (''layer'' @ str_nat L)"
    using str_nat_no_dot [of L] by simp
  have "layer_key L B rest = (''layer'' @ str_nat L) @ CHR ''.'' # (str_nat B @ CHR ''.'' # rest)"
    by (simp add: layer_key_def)
  then have "split_dot (layer_key L B rest)
      = (''layer'' @ str_nat L) # split_dot (str_nat B @ CHR ''.'' # rest)"
    by (simp only: split_dot_nodot [OF nd])
  then show ?thesis by (simp only: split_dot_nodot [OF str_nat_no_dot])
qed

lemma join_layer_key:
  "join_dot ((''layer'' @ str_nat L) # str_nat N # split_dot rest) = layer_key L N rest"
proof -
  obtain p ps where sp: "split_dot rest = p # ps"
    using split_dot_nonempty [of rest] by (cases "split_dot rest") auto
  have "join_dot (p # ps) = rest" using join_split [of rest] sp by simp
  then show ?thesis by (simp add: sp layer_key_def)
qed

lemma py_int_str_digit: "B < 10 \<Longrightarrow> py_int (str_nat B) = Inr (int B)"
  by (simp add: str_nat_small py_int_digit)

lemma align_key_layer:
  assumes L: "L < 5" and B: "B < 10" and v: "map_of sd (layer_key L B rest) = Some v"
  shows "\<exists>sd'. align_key (layer_key L B rest) sd = Inr sd'
           \<and> map_of sd' = (map_of sd)(layer_key L B rest := None,
                                        layer_key L (B + shift L B) rest \<mapsto> v)
           \<and> (distinct (map fst sd) \<longrightarrow> distinct (map fst sd'))"
proof -
  let ?k = "layer_key L B rest"
  have sl: "str_nat L = [digit_char L]" using L by (simp add: str_nat_small)
  have sub: "sublist ''layer'' ?k" by (rule sublist_layer_key)
  have hd: "hd (split_dot ?k) = ''layer'' @ [digit_char L]"
    by (simp add: split_layer_key sl)
  have hdne: "(hd (split_dot ?k) = []) = False" by (simp add: hd)
  have li: "py_int [last (hd (split_dot ?k))] = Inr (int L)"
    using L by (simp add: hd py_int_digit)
  have len: "(length (split_dot ?k) < 2) = False" by (simp add: split_layer_key)
  have bi: "split_dot ?k ! 1 = str_nat B" by (simp add: split_layer_key)
  have la: "(int L < 0 \<or> int (length ADL_POSITION) \<le> int L) = False"
    using L by (simp add: ADL_POSITION_def)
  have pb: "py_int (str_nat B) = Inr (int B)" using B by (rule py_int_str_digit)
  show ?thesis
  proof (cases "ADL_POSITION ! L = []")
    case True
    then have s0: "shift L B = 0" by (simp add: shift_def)
    have 1: "align_key ?k sd = Inr sd"
      by (simp only: align_key_def Let_def sub hdne li len la True ebind_Inr nat_int
          if_True if_False not_True_eq_False simp_thms)
    have "(map_of sd)(?k := None, ?k \<mapsto> v) = map_of sd"
      using v by (simp add: map_upd_triv)
    with 1 s0 show ?thesis by simp
  next
    case False
    then have ne: "(ADL_POSITION ! L = []) = False" by simp
    have mv: "count_move (ADL_POSITION ! L) (int B) = int (shift L B)"
      by (simp add: count_move_eq shift_def)
    have nk: "join_dot ((split_dot ?k)[1 := py_str (int B + int (shift L B))])
        = layer_key L (B + shift L B) rest"
    proof -
      have ps: "py_str (int B + int (shift L B)) = str_nat (B + shift L B)"
        by (simp add: py_str_def nat_add_distrib)
      have u: "(split_dot ?k)[1 := py_str (int B + int (shift L B))]
          = (''layer'' @ str_nat L) # str_nat (B + shift L B) # split_dot rest"
        by (simp add: split_layer_key ps)
      show ?thesis by (simp only: u join_layer_key)
    qed
    have 1: "align_key ?k sd
        = Inr (AList.update (layer_key L (B + shift L B) rest) v (AList.delete ?k sd))"
      by (simp only: align_key_def Let_def sub hdne li len bi la ne pb mv nk v ebind_Inr nat_int
          if_True if_False not_True_eq_False simp_thms option.case)
    have 2: "map_of (AList.update (layer_key L (B + shift L B) rest) v (AList.delete ?k sd))
        = (map_of sd)(?k := None, layer_key L (B + shift L B) rest \<mapsto> v)"
      by (simp add: update_conv' delete_conv')
    have 3: "distinct (map fst sd) \<longrightarrow>
        distinct (map fst (AList.update (layer_key L (B + shift L B) rest) v (AList.delete ?k sd)))"
      by (simp add: distinct_update distinct_delete)
    from 1 2 3 show ?thesis by blast
  qed
qed

lemma align_loop_invariant:
  fixes cur :: "'v state_dict"
  assumes step: "\<And>k (sd :: 'v state_dict) v. k \<in> K \<Longrightarrow> map_of sd k = Some v \<Longrightarrow>
       \<exists>sd'. align_key k sd = Inr sd' \<and> map_of sd' = (map_of sd)(k := None, f k \<mapsto> v)
          \<and> (distinct (map fst sd) \<longrightarrow> distinct (map fst sd'))"
    and inj: "inj_on f K"
  shows "distinct ks \<Longrightarrow> set ks \<subseteq> K \<Longrightarrow>
         (\<forall>ys k zs. ks = ys @ k # zs \<longrightarrow> f k \<notin> set zs) \<Longrightarrow>
         (\<forall>k \<in> set ks. map_of cur k \<noteq> None) \<Longrightarrow>
         \<exists>sd'. align_loop ks cur = Inr sd'
           \<and> (\<forall>k \<in> set ks. map_of sd' (f k) = map_of cur k)
           \<and> (\<forall>k'. k' \<notin> set ks \<and> k' \<notin> f ` set ks \<longrightarrow> map_of sd' k' = map_of cur k')
           \<and> (\<forall>k' \<in> set ks. k' \<notin> f ` set ks \<longrightarrow> map_of sd' k' = None)
           \<and> (distinct (map fst cur) \<longrightarrow> distinct (map fst sd'))"
proof (induction ks arbitrary: cur)
  case Nil
  then show ?case by simp
next
  case (Cons k ks)
  from Cons.prems have kK: "k \<in> K" and ksK: "set ks \<subseteq> K" and kn: "k \<notin> set ks"
    and dks: "distinct ks" by simp_all
  from Cons.prems(4) obtain v where v: "map_of cur k = Some v" by auto
  from step [OF kK v] obtain c1 where c1: "align_key k cur = Inr c1"
    "map_of c1 = (map_of cur)(k := None, f k \<mapsto> v)"
    "distinct (map fst cur) \<longrightarrow> distinct (map fst c1)" by blast
  have fk: "f k \<notin> set ks" using Cons.prems(3) by (metis append_Nil)
  have fki: "f k \<notin> f ` set ks"
  proof
    assume "f k \<in> f ` set ks"
    then obtain r where "r \<in> set ks" "f r = f k" by auto
    with inj kK ksK have "r = k" by (meson inj_onD subsetD)
    with \<open>r \<in> set ks\<close> kn show False by simp
  qed
  have same: "map_of c1 r = map_of cur r" if "r \<in> set ks" for r
    using that kn fk by (auto simp: c1(2))
  have ord: "\<forall>ys r zs. ks = ys @ r # zs \<longrightarrow> f r \<notin> set zs"
  proof (intro allI impI)
    fix ys r zs assume "ks = ys @ r # zs"
    then have "k # ks = (k # ys) @ r # zs" by simp
    with Cons.prems(3) show "f r \<notin> set zs" by blast
  qed
  have pres: "\<forall>r \<in> set ks. map_of c1 r \<noteq> None"
    using same Cons.prems(4) by simp
  from Cons.IH [OF dks ksK ord pres] obtain sd' where sd':
    "align_loop ks c1 = Inr sd'"
    "\<forall>r \<in> set ks. map_of sd' (f r) = map_of c1 r"
    "\<forall>k'. k' \<notin> set ks \<and> k' \<notin> f ` set ks \<longrightarrow> map_of sd' k' = map_of c1 k'"
    "\<forall>k' \<in> set ks. k' \<notin> f ` set ks \<longrightarrow> map_of sd' k' = None"
    "distinct (map fst c1) \<longrightarrow> distinct (map fst sd')" by blast
  have 1: "align_loop (k # ks) cur = Inr sd'" by (simp add: c1(1) sd'(1))
  have 2: "\<forall>r \<in> set (k # ks). map_of sd' (f r) = map_of cur r"
  proof
    fix r assume r: "r \<in> set (k # ks)"
    show "map_of sd' (f r) = map_of cur r"
    proof (cases "r = k")
      case True
      have "map_of sd' (f k) = map_of c1 (f k)" using sd'(3) fk fki by blast
      then show ?thesis using True v by (simp add: c1(2))
    next
      case False
      with r have "r \<in> set ks" by simp
      then show ?thesis using sd'(2) same by simp
    qed
  qed
  have 3: "\<forall>k'. k' \<notin> set (k # ks) \<and> k' \<notin> f ` set (k # ks) \<longrightarrow> map_of sd' k' = map_of cur k'"
  proof (intro allI impI)
    fix k' assume a: "k' \<notin> set (k # ks) \<and> k' \<notin> f ` set (k # ks)"
    then have "map_of sd' k' = map_of c1 k'" using sd'(3) by auto
    also have "\<dots> = map_of cur k'" using a by (auto simp: c1(2))
    finally show "map_of sd' k' = map_of cur k'" .
  qed
  have 4: "\<forall>k' \<in> set (k # ks). k' \<notin> f ` set (k # ks) \<longrightarrow> map_of sd' k' = None"
  proof (intro ballI impI)
    fix k' assume m: "k' \<in> set (k # ks)" and n: "k' \<notin> f ` set (k # ks)"
    show "map_of sd' k' = None"
    proof (cases "k' = k")
      case True
      with n have "k \<noteq> f k" and "k \<notin> f ` set ks" by auto
      then have "map_of sd' k = map_of c1 k" using sd'(3) kn by blast
      also have "\<dots> = None" using \<open>k \<noteq> f k\<close> by (simp add: c1(2))
      finally show ?thesis using True by simp
    next
      case False
      with m have "k' \<in> set ks" by simp
      moreover from n have "k' \<notin> f ` set ks" by auto
      ultimately show ?thesis using sd'(4) by blast
    qed
  qed
  have 5: "distinct (map fst cur) \<longrightarrow> distinct (map fst sd')"
    using c1(3) sd'(5) by blast
  from 1 2 3 4 5 show ?case by blast
qed

end
